theory Spec2Isabelle
  imports Main
begin

section \<open>Curriculum data (CourseProgressService.ts, lines 12-48)\<close>

text \<open>
  The TypeScript interfaces become records. Several interfaces share field names
  (\<open>sequence\<close>, \<open>sectionId\<close>, ...); a record field is a constant, so each field carries
  a short prefix naming its interface. IDs are JavaScript strings, \<open>sequence\<close> is the
  integer position among the siblings, \<open>T | null\<close> is \<open>T option\<close>.
\<close>

record SectionItem =
  item_sectionItemId :: string
  item_sequence :: int

record Section =
  sec_sectionId :: string
  sec_sequence :: int
  sec_sectionItems :: "SectionItem list"

record Module =
  mod_moduleId :: string
  mod_sequence :: int
  mod_sections :: "Section list"

record CourseProgressData =
  courseInstanceId :: string
  studentIds :: "string list"
  modules :: "Module list"

record SeperatedIds =
  ids_modules :: "string list"
  ids_sections :: "string list"
  ids_sectionItems :: "string list"
  firstModule :: "string option"
  firstSection :: "string option"
  firstSectionItem :: "string option"

text \<open>
  The \<open>Prisma.*NextCreateManyInput\<close> objects built by \<open>getNextData\<close>. The first-child
  field is \<open>... || null\<close> in the source, so it is optional here although the column is
  required in the schema.
\<close>

record ModuleNextInput =
  mni_moduleId :: string
  mni_nextModuleId :: "string option"
  mni_courseInstanceId :: string
  mni_sectionId :: "string option"

record SectionNextInput =
  sni_sectionId :: string
  sni_nextSectionId :: "string option"
  sni_moduleId :: string
  sni_sectionItemId :: "string option"

record SectionItemNextInput =
  ini_sectionItemId :: string
  ini_nextSectionItemId :: "string option"
  ini_sectionId :: string

record NextData =
  moduleNextData :: "ModuleNextInput list"
  sectionNextData :: "SectionNextInput list"
  sectionItemNextData :: "SectionItemNextInput list"

section \<open>JavaScript idioms\<close>

text \<open>\<open>x || null\<close> on a \<open>string | undefined\<close>: the empty string is falsy, like undefined.\<close>

definition or_null :: "string option \<Rightarrow> string option" where
  "or_null x = (case x of None \<Rightarrow> None | Some s \<Rightarrow> if s = [] then None else Some s)"

text \<open>\<open>xs[i]\<close>: undefined when the index is out of range.\<close>

definition at_index :: "'a list \<Rightarrow> nat \<Rightarrow> 'a option" where
  "at_index xs i = (if i < length xs then Some (xs ! i) else None)"

text \<open>
  \<open>xs.sort((a, b) => a.sequence - b.sequence)\<close>: ascending and stable
  (\<open>Array.prototype.sort\<close> is stable); \<open>sort_key\<close> is the stable insertion sort.
\<close>

definition sortItemsOf :: "Section \<Rightarrow> Section" where
  "sortItemsOf sec = sec\<lparr>sec_sectionItems := sort_key item_sequence (sec_sectionItems sec)\<rparr>"

definition sortSectionsOf :: "Module \<Rightarrow> Module" where
  "sortSectionsOf m =
     m\<lparr>mod_sections := map sortItemsOf (sort_key sec_sequence (mod_sections m))\<rparr>"

section \<open>extractAllIds (lines 50-113)\<close>

text \<open>
  \<open>sortedModules\<close> is a fresh array holding the caller's module objects; sorting it leaves
  the caller's array alone. The loop then sorts each module's \<open>sections\<close> array and each
  section's \<open>sectionItems\<close> array in place, and these arrays belong to the caller's
  objects. \<open>extractAllIds_sorted\<close> is the local array after the loop,
  \<open>extractAllIds_input\<close> is the caller's \<open>courseProgressData\<close> after the call.
\<close>

definition extractAllIds_sorted :: "CourseProgressData \<Rightarrow> Module list" where
  "extractAllIds_sorted cd = map sortSectionsOf (sort_key mod_sequence (modules cd))"

definition extractAllIds_input :: "CourseProgressData \<Rightarrow> CourseProgressData" where
  "extractAllIds_input cd = cd\<lparr>modules := map sortSectionsOf (modules cd)\<rparr>"

definition extractAllIds :: "CourseProgressData \<Rightarrow> SeperatedIds" where
  "extractAllIds cd =
     (let sortedModules = extractAllIds_sorted cd;
          ms = map mod_moduleId sortedModules;
          ss = concat (map (\<lambda>m. map sec_sectionId (mod_sections m)) sortedModules);
          is = concat (map (\<lambda>m. concat (map (\<lambda>s. map item_sectionItemId (sec_sectionItems s))
                                              (mod_sections m))) sortedModules)
      in case find (\<lambda>m. mod_sequence m = 1) sortedModules of
           None \<Rightarrow>
             \<lparr>ids_modules = ms, ids_sections = ss, ids_sectionItems = is,
              firstModule = None, firstSection = None, firstSectionItem = None\<rparr>
         | Some fm \<Rightarrow>
             (let fs = find (\<lambda>s. sec_sequence s = 1) (mod_sections fm);
                  fi = or_null (case fs of
                                  None \<Rightarrow> None
                                | Some s \<Rightarrow> map_option item_sectionItemId
                                             (find (\<lambda>i. item_sequence i = 1) (sec_sectionItems s)))
              in \<lparr>ids_modules = ms, ids_sections = ss, ids_sectionItems = is,
                  firstModule = Some (mod_moduleId fm),
                  firstSection = or_null (map_option sec_sectionId fs),
                  firstSectionItem = fi\<rparr>))"

section \<open>extractAllIds on the heap (lines 50-64)\<close>

text \<open>
  Whether a sort reaches the caller depends on which arrays are shared, so this part of
  \<open>extractAllIds\<close> is also modelled with arrays at addresses. A module or section object
  is never assigned to: only the array its \<open>sections\<close> or \<open>sectionItems\<close> field refers to
  changes, so an object is a value holding the address of that array. \<open>[...modules]\<close>
  allocates a new array with the same elements, and \<open>Array.prototype.sort\<close> writes the
  sorted elements back to the array it is called on.
\<close>

type_synonym address = nat

record SectionObject =
  so_sectionId :: string
  so_sequence :: int
  so_sectionItems :: address

record ModuleObject =
  mo_moduleId :: string
  mo_sequence :: int
  mo_sections :: address

record heap =
  nextFree :: address
  moduleArrays :: "address \<Rightarrow> ModuleObject list"
  sectionArrays :: "address \<Rightarrow> SectionObject list"
  sectionItemArrays :: "address \<Rightarrow> SectionItem list"

text \<open>Line 62, for one section of the inner loop.\<close>

definition sortItemsInPlace :: "SectionObject \<Rightarrow> heap \<Rightarrow> heap" where
  "sortItemsInPlace sec h =
     h\<lparr>sectionItemArrays := (sectionItemArrays h)
          (so_sectionItems sec := sort_key item_sequence (sectionItemArrays h (so_sectionItems sec)))\<rparr>"

text \<open>Lines 59-63, for one module of the outer loop.\<close>

definition sortSectionsInPlace :: "ModuleObject \<Rightarrow> heap \<Rightarrow> heap" where
  "sortSectionsInPlace mo h =
     (let h1 = h\<lparr>sectionArrays := (sectionArrays h)
                   (mo_sections mo := sort_key so_sequence (sectionArrays h (mo_sections mo)))\<rparr>
      in fold sortItemsInPlace (sectionArrays h1 (mo_sections mo)) h1)"

text \<open>
  Lines 52-64: the address of \<open>sortedModules\<close> and the heap after the loop. The argument is
  the address of the array \<open>courseProgressData.modules\<close>.
\<close>

definition extractAllIds_heap :: "address \<Rightarrow> heap \<Rightarrow> address \<times> heap" where
  "extractAllIds_heap modulesArray h =
     (let sortedModules = nextFree h;
          h1 = h\<lparr>nextFree := Suc (nextFree h),
                 moduleArrays := (moduleArrays h)(sortedModules := moduleArrays h modulesArray)\<rparr>;
          h2 = h1\<lparr>moduleArrays := (moduleArrays h1)
                    (sortedModules := sort_key mo_sequence (moduleArrays h1 sortedModules))\<rparr>
      in (sortedModules, fold sortSectionsInPlace (moduleArrays h2 sortedModules) h2))"

text \<open>The curriculum a reader sees when following the references from an array of modules.\<close>

definition readSection :: "heap \<Rightarrow> SectionObject \<Rightarrow> Section" where
  "readSection h sec =
     \<lparr>sec_sectionId = so_sectionId sec, sec_sequence = so_sequence sec,
      sec_sectionItems = sectionItemArrays h (so_sectionItems sec)\<rparr>"

definition readModule :: "heap \<Rightarrow> ModuleObject \<Rightarrow> Module" where
  "readModule h mo =
     \<lparr>mod_moduleId = mo_moduleId mo, mod_sequence = mo_sequence mo,
      mod_sections = map (readSection h) (sectionArrays h (mo_sections mo))\<rparr>"

definition readModules :: "heap \<Rightarrow> address \<Rightarrow> Module list" where
  "readModules h modulesArray = map (readModule h) (moduleArrays h modulesArray)"

section \<open>getNextData (lines 115-155)\<close>

text \<open>\<open>xs.map((x, index) => ...)\<close> is a map over \<open>enumerate 0 xs\<close>.\<close>

definition moduleNextOf :: "CourseProgressData \<Rightarrow> ModuleNextInput list" where
  "moduleNextOf cd =
     map (\<lambda>(index, m).
            \<lparr>mni_moduleId = mod_moduleId m,
             mni_nextModuleId = or_null (map_option mod_moduleId (at_index (modules cd) (index + 1))),
             mni_courseInstanceId = courseInstanceId cd,
             mni_sectionId = or_null (map_option sec_sectionId
                                        (find (\<lambda>s. sec_sequence s = 1) (mod_sections m)))\<rparr>)
         (enumerate 0 (modules cd))"

definition sectionNextOf :: "Module \<Rightarrow> SectionNextInput list" where
  "sectionNextOf m =
     map (\<lambda>(index, s).
            \<lparr>sni_sectionId = sec_sectionId s,
             sni_nextSectionId = or_null (map_option sec_sectionId (at_index (mod_sections m) (index + 1))),
             sni_moduleId = mod_moduleId m,
             sni_sectionItemId = or_null (map_option item_sectionItemId
                                            (find (\<lambda>i. item_sequence i = 1) (sec_sectionItems s)))\<rparr>)
         (enumerate 0 (mod_sections m))"

definition sectionItemNextOf :: "Section \<Rightarrow> SectionItemNextInput list" where
  "sectionItemNextOf s =
     map (\<lambda>(index, i).
            \<lparr>ini_sectionItemId = item_sectionItemId i,
             ini_nextSectionItemId =
               or_null (map_option item_sectionItemId (at_index (sec_sectionItems s) (index + 1))),
             ini_sectionId = sec_sectionId s\<rparr>)
         (enumerate 0 (sec_sectionItems s))"

definition getNextData :: "CourseProgressData \<Rightarrow> NextData" where
  "getNextData cd =
     \<lparr>moduleNextData = moduleNextOf cd,
      sectionNextData = concat (map sectionNextOf (modules cd)),
      sectionItemNextData =
        concat (map (\<lambda>m. concat (map sectionItemNextOf (mod_sections m))) (modules cd))\<rparr>"

section \<open>The database (schema.prisma)\<close>

datatype ProgressEnum = IN_PROGRESS | INCOMPLETE | COMPLETE

text \<open>
  The service throws plain \<open>Error\<close> objects told apart by their message only; the model
  names them after the spec's taxonomy. \<open>GatingViolation\<close> is "Cannot update progress
  ... because the previous item ... is not complete", \<open>NotFound\<close> is "... details not found
  for ...", \<open>InitializationFailed\<close> is "Failed to initialize student progress".
  \<open>ValidationError\<close> is Prisma refusing \<open>null\<close> for a required column.
\<close>

datatype error = GatingViolation | NotFound | InitializationFailed | ValidationError

text \<open>
  A table is the list of its rows. A progress table pairs the primary key with the
  status: \<open>(studentId, courseInstanceId)\<close> for the course, \<open>(studentId, entityId,
  courseInstanceId)\<close> for modules, sections and section items. \<open>createdAt\<close> and
  \<open>updatedAt\<close> are left out.
\<close>

type_synonym courseKey = "string \<times> string"
type_synonym entityKey = "string \<times> string \<times> string"

record ModuleNext =
  mn_moduleId :: string
  mn_sectionId :: string
  mn_nextModuleId :: "string option"
  mn_courseInstanceId :: string

record SectionNext =
  sn_sectionId :: string
  sn_sectionItemId :: string
  sn_nextSectionId :: "string option"
  sn_moduleId :: string

record SectionItemNext =
  sin_sectionItemId :: string
  sin_nextSectionItemId :: "string option"
  sin_sectionId :: string

record store =
  totalProgress :: "(courseKey \<times> int) list"
  studentCourseProgress :: "(courseKey \<times> ProgressEnum) list"
  studentModuleProgress :: "(entityKey \<times> ProgressEnum) list"
  studentSectionProgress :: "(entityKey \<times> ProgressEnum) list"
  studentSectionItemProgress :: "(entityKey \<times> ProgressEnum) list"
  moduleNext :: "ModuleNext list"
  sectionNext :: "SectionNext list"
  sectionItemNext :: "SectionItemNext list"

subsection \<open>Prisma operations\<close>

text \<open>\<open>findUnique\<close> on a progress table is \<open>map_of\<close>.\<close>

text \<open>\<open>upsert\<close> with \<open>update: {}\<close>: create the row if absent, else leave it.\<close>

definition insertIfAbsent :: "'k \<times> 'v \<Rightarrow> ('k \<times> 'v) list \<Rightarrow> ('k \<times> 'v) list" where
  "insertIfAbsent kv t = (if map_of t (fst kv) = None then t @ [kv] else t)"

text \<open>\<open>createMany\<close> with \<open>skipDuplicates: true\<close>: rows whose key exists are skipped.\<close>

definition createMany_skipDuplicates :: "('k \<times> 'v) list \<Rightarrow> ('k \<times> 'v) list \<Rightarrow> ('k \<times> 'v) list" where
  "createMany_skipDuplicates rows t = fold insertIfAbsent rows t"

text \<open>\<open>upsert\<close> that overwrites the value: \<open>update: { progress: 0 }\<close>.\<close>

definition upsertValue :: "'k \<Rightarrow> 'v \<Rightarrow> ('k \<times> 'v) list \<Rightarrow> ('k \<times> 'v) list" where
  "upsertValue k v t =
     (if map_of t k = None then t @ [(k, v)]
      else map (\<lambda>(k', v'). if k' = k then (k', v) else (k', v')) t)"

text \<open>
  The three adjacency upserts (lines 744-770): \<open>update\<close> changes the next pointer only,
  \<open>create\<close> stores the whole record. \<open>create\<close> must give the required first-child
  column a value; Prisma rejects the query otherwise, whichever branch would run.
\<close>

definition upsertModuleNext :: "ModuleNextInput \<Rightarrow> ModuleNext list \<Rightarrow> error + ModuleNext list" where
  "upsertModuleNext d t =
     (case mni_sectionId d of
        None \<Rightarrow> Inl ValidationError
      | Some sec \<Rightarrow>
          Inr (if find (\<lambda>r. mn_moduleId r = mni_moduleId d) t = None
               then t @ [\<lparr>mn_moduleId = mni_moduleId d, mn_sectionId = sec,
                          mn_nextModuleId = mni_nextModuleId d,
                          mn_courseInstanceId = mni_courseInstanceId d\<rparr>]
               else map (\<lambda>r. if mn_moduleId r = mni_moduleId d
                               then r\<lparr>mn_nextModuleId := mni_nextModuleId d\<rparr> else r) t))"

definition upsertSectionNext :: "SectionNextInput \<Rightarrow> SectionNext list \<Rightarrow> error + SectionNext list" where
  "upsertSectionNext d t =
     (case sni_sectionItemId d of
        None \<Rightarrow> Inl ValidationError
      | Some item \<Rightarrow>
          Inr (if find (\<lambda>r. sn_sectionId r = sni_sectionId d) t = None
               then t @ [\<lparr>sn_sectionId = sni_sectionId d, sn_sectionItemId = item,
                          sn_nextSectionId = sni_nextSectionId d,
                          sn_moduleId = sni_moduleId d\<rparr>]
               else map (\<lambda>r. if sn_sectionId r = sni_sectionId d
                               then r\<lparr>sn_nextSectionId := sni_nextSectionId d\<rparr> else r) t))"

definition upsertSectionItemNext :: "SectionItemNextInput \<Rightarrow> SectionItemNext list \<Rightarrow> SectionItemNext list" where
  "upsertSectionItemNext d t =
     (if find (\<lambda>r. sin_sectionItemId r = ini_sectionItemId d) t = None
      then t @ [\<lparr>sin_sectionItemId = ini_sectionItemId d,
                 sin_nextSectionItemId = ini_nextSectionItemId d,
                 sin_sectionId = ini_sectionId d\<rparr>]
      else map (\<lambda>r. if sin_sectionItemId r = ini_sectionItemId d
                      then r\<lparr>sin_nextSectionItemId := ini_nextSectionItemId d\<rparr> else r) t)"

text \<open>
  The queued operations of \<open>progressRecords\<close> (Prisma promises run only by
  \<open>$transaction\<close>), and \<open>prisma.$transaction\<close>: the operations run in order, and the
  first failure rolls everything back.
\<close>

datatype operation =
    UpsertTotalProgress courseKey
  | UpsertCourseProgress courseKey
  | CreateManyModuleProgress "(entityKey \<times> ProgressEnum) list"
  | CreateManySectionProgress "(entityKey \<times> ProgressEnum) list"
  | CreateManySectionItemProgress "(entityKey \<times> ProgressEnum) list"
  | UpsertModuleNext ModuleNextInput
  | UpsertSectionNext SectionNextInput
  | UpsertSectionItemNext SectionItemNextInput

fun run :: "operation \<Rightarrow> store \<Rightarrow> error + store" where
  "run (UpsertTotalProgress k) s = Inr (s\<lparr>totalProgress := upsertValue k 0 (totalProgress s)\<rparr>)"
| "run (UpsertCourseProgress k) s =
     Inr (s\<lparr>studentCourseProgress := insertIfAbsent (k, IN_PROGRESS) (studentCourseProgress s)\<rparr>)"
| "run (CreateManyModuleProgress rows) s =
     Inr (s\<lparr>studentModuleProgress := createMany_skipDuplicates rows (studentModuleProgress s)\<rparr>)"
| "run (CreateManySectionProgress rows) s =
     Inr (s\<lparr>studentSectionProgress := createMany_skipDuplicates rows (studentSectionProgress s)\<rparr>)"
| "run (CreateManySectionItemProgress rows) s =
     Inr (s\<lparr>studentSectionItemProgress :=
              createMany_skipDuplicates rows (studentSectionItemProgress s)\<rparr>)"
| "run (UpsertModuleNext d) s =
     (case upsertModuleNext d (moduleNext s) of
        Inl e \<Rightarrow> Inl e | Inr t \<Rightarrow> Inr (s\<lparr>moduleNext := t\<rparr>))"
| "run (UpsertSectionNext d) s =
     (case upsertSectionNext d (sectionNext s) of
        Inl e \<Rightarrow> Inl e | Inr t \<Rightarrow> Inr (s\<lparr>sectionNext := t\<rparr>))"
| "run (UpsertSectionItemNext d) s =
     Inr (s\<lparr>sectionItemNext := upsertSectionItemNext d (sectionItemNext s)\<rparr>)"

fun transaction :: "operation list \<Rightarrow> store \<Rightarrow> error + store" where
  "transaction [] s = Inr s"
| "transaction (operation # operations) s =
     (case run operation s of Inl e \<Rightarrow> Inl e | Inr s' \<Rightarrow> transaction operations s')"

section \<open>initializeStudentProgress (lines 598-786)\<close>

text \<open>The innermost loop (lines 679-694); the flag is \<open>firstItemInitialized\<close>.\<close>

fun sectionItemLoop ::
  "string \<Rightarrow> string \<Rightarrow> ProgressEnum \<Rightarrow> bool \<Rightarrow> SectionItem list \<Rightarrow> (entityKey \<times> ProgressEnum) list" where
  "sectionItemLoop cid student sectionProgress firstItemInitialized [] = []"
| "sectionItemLoop cid student sectionProgress firstItemInitialized (item # items) =
     ((student, item_sectionItemId item, cid),
      if sectionProgress = IN_PROGRESS \<and> \<not> firstItemInitialized then IN_PROGRESS else INCOMPLETE)
     # sectionItemLoop cid student sectionProgress True items"

text \<open>
  The section loop (lines 665-697); the flag is \<open>firstSectionInitialized\<close>. It returns
  what the loop appends to \<open>sectionData\<close> and to \<open>sectionItemData\<close>.
\<close>

fun sectionLoop ::
  "string \<Rightarrow> string \<Rightarrow> ProgressEnum \<Rightarrow> bool \<Rightarrow> Section list
     \<Rightarrow> (entityKey \<times> ProgressEnum) list \<times> (entityKey \<times> ProgressEnum) list" where
  "sectionLoop cid student moduleProgress firstSectionInitialized [] = ([], [])"
| "sectionLoop cid student moduleProgress firstSectionInitialized (section # sections) =
     (let sectionProgress =
            (if moduleProgress = IN_PROGRESS \<and> \<not> firstSectionInitialized
             then IN_PROGRESS else INCOMPLETE);
          itemRows = sectionItemLoop cid student sectionProgress False (sec_sectionItems section);
          (sectionData, sectionItemData) = sectionLoop cid student moduleProgress True sections
      in (((student, sec_sectionId section, cid), sectionProgress) # sectionData,
          itemRows @ sectionItemData))"

text \<open>
  The module loop (lines 654-720); the flag is \<open>previousModuleComplete\<close>, recomputed
  after each module from the stored module progress. The read is an awaited
  \<open>findUnique\<close>, so it sees the store as it is before the transaction.
\<close>

fun moduleLoop ::
  "store \<Rightarrow> string \<Rightarrow> string \<Rightarrow> bool \<Rightarrow> Module list
     \<Rightarrow> (entityKey \<times> ProgressEnum) list \<times> (entityKey \<times> ProgressEnum) list
        \<times> (entityKey \<times> ProgressEnum) list" where
  "moduleLoop s cid student previousModuleComplete [] = ([], [], [])"
| "moduleLoop s cid student previousModuleComplete (m # ms) =
     (let moduleProgress = (if previousModuleComplete then IN_PROGRESS else INCOMPLETE);
          (sectionRows, itemRows) = sectionLoop cid student moduleProgress False (mod_sections m);
          currentModuleProgress = map_of (studentModuleProgress s) (student, mod_moduleId m, cid);
          (moduleData, sectionData, sectionItemData) =
             moduleLoop s cid student (currentModuleProgress = Some COMPLETE) ms
      in (((student, mod_moduleId m, cid), moduleProgress) # moduleData,
          sectionRows @ sectionData,
          itemRows @ sectionItemData))"

text \<open>
  One turn of the student loop (lines 611-776): the operations it pushes and what it
  adds to \<open>totalRecords\<close>.
\<close>

definition studentRecords :: "store \<Rightarrow> CourseProgressData \<Rightarrow> string \<Rightarrow> operation list \<times> nat" where
  "studentRecords s cd student =
     (let cid = courseInstanceId cd;
          (moduleData, sectionData, sectionItemData) = moduleLoop s cid student True (modules cd);
          nextData = getNextData cd
      in ([UpsertTotalProgress (student, cid),
           UpsertCourseProgress (student, cid),
           CreateManyModuleProgress moduleData,
           CreateManySectionProgress sectionData,
           CreateManySectionItemProgress sectionItemData]
          @ map UpsertModuleNext (moduleNextData nextData)
          @ map UpsertSectionNext (sectionNextData nextData)
          @ map UpsertSectionItemNext (sectionItemNextData nextData),
          1 + (length moduleData + length sectionData + length sectionItemData)))"

fun studentLoop ::
  "store \<Rightarrow> CourseProgressData \<Rightarrow> string list \<Rightarrow> operation list \<times> nat \<Rightarrow> operation list \<times> nat" where
  "studentLoop s cd [] acc = acc"
| "studentLoop s cd (student # students) (progressRecords, totalRecords) =
     (let (records, n) = studentRecords s cd student
      in studentLoop s cd students (progressRecords @ records, totalRecords + n))"

record InitResult =
  studentCount :: nat
  totalRecords :: nat

text \<open>
  \<open>modules\<close> is bound to the caller's array before \<open>extractAllIds\<close> runs (line 601), and
  the \<open>moduleIds\<close> of line 607 are never read: the call matters only through what it does
  to the caller's object, which the loops and \<open>getNextData\<close> read afterwards. A failed
  call leaves the store as it was.
\<close>

definition initializeStudentProgress ::
  "CourseProgressData \<Rightarrow> store \<Rightarrow> (error + InitResult) \<times> store" where
  "initializeStudentProgress courseData s =
     (let moduleIds = ids_modules (extractAllIds courseData);
          courseData' = extractAllIds_input courseData;
          (progressRecords, total) = studentLoop s courseData' (studentIds courseData') ([], 0)
      in case transaction progressRecords s of
           Inl e \<Rightarrow> (Inl InitializationFailed, s)
         | Inr s' \<Rightarrow>
             (Inr \<lparr>studentCount = length (studentIds courseData'), totalRecords = total\<rparr>, s'))"

section \<open>The repository\<close>

text \<open>
  Modelled from the spec: \<open>CourseProgressRepository\<close> (imported at line 3 from
  \<open>../repositories/CourseProgressRepository\<close>) is not among the sources. Its update methods
  are the storage contract's \<open>markProgress(level, entityId, studentId, courseInstanceId,
  status)\<close>; the source calls them without a status, and the status passed here is the one
  the service's comments and section 4.4 of the spec name at each call. Its detail methods
  are \<open>getAdjacency(level, entityId) -> { nextId, firstChildId, parentId } | NotFound\<close>,
  returning null for a missing record, which is what the service tests. A missing progress
  record is the \<open>NotFound\<close> of section 7.
\<close>

definition markProgress :: "'k \<Rightarrow> ProgressEnum \<Rightarrow> ('k \<times> ProgressEnum) list \<Rightarrow> error + ('k \<times> ProgressEnum) list" where
  "markProgress k status t =
     (if map_of t k = None then Inl NotFound
      else Inr (map (\<lambda>(k', v). if k' = k then (k', status) else (k', v)) t))"

text \<open>
  Modelled from the spec: the repository's \<open>updateSectionItemProgress\<close>, \<open>markProgress\<close> at
  the section item level, for the one ID the service passes.
\<close>

definition repo_updateSectionItemProgress ::
  "string \<Rightarrow> string \<Rightarrow> string \<Rightarrow> ProgressEnum \<Rightarrow> store \<Rightarrow> error + store" where
  "repo_updateSectionItemProgress cid student sectionItemId status s =
     (case markProgress (student, sectionItemId, cid) status (studentSectionItemProgress s) of
        Inl e \<Rightarrow> Inl e | Inr t \<Rightarrow> Inr (s\<lparr>studentSectionItemProgress := t\<rparr>))"

text \<open>Modelled from the spec: the repository's \<open>updateSectionProgress\<close>.\<close>

definition repo_updateSectionProgress ::
  "string \<Rightarrow> string \<Rightarrow> string \<Rightarrow> ProgressEnum \<Rightarrow> store \<Rightarrow> error + store" where
  "repo_updateSectionProgress cid student sectionId status s =
     (case markProgress (student, sectionId, cid) status (studentSectionProgress s) of
        Inl e \<Rightarrow> Inl e | Inr t \<Rightarrow> Inr (s\<lparr>studentSectionProgress := t\<rparr>))"

text \<open>Modelled from the spec: the repository's \<open>updateModuleProgress\<close>.\<close>

definition repo_updateModuleProgress ::
  "string \<Rightarrow> string \<Rightarrow> string \<Rightarrow> ProgressEnum \<Rightarrow> store \<Rightarrow> error + store" where
  "repo_updateModuleProgress cid student moduleId status s =
     (case markProgress (student, moduleId, cid) status (studentModuleProgress s) of
        Inl e \<Rightarrow> Inl e | Inr t \<Rightarrow> Inr (s\<lparr>studentModuleProgress := t\<rparr>))"

text \<open>
  Modelled from the spec: the repository's \<open>updateCourseProgress\<close>; the course is only ever
  marked COMPLETE.
\<close>

definition repo_updateCourseProgress :: "string \<Rightarrow> string \<Rightarrow> store \<Rightarrow> error + store" where
  "repo_updateCourseProgress cid student s =
     (case markProgress (student, cid) COMPLETE (studentCourseProgress s) of
        Inl e \<Rightarrow> Inl e | Inr t \<Rightarrow> Inr (s\<lparr>studentCourseProgress := t\<rparr>))"

text \<open>
  Modelled from the spec: the repository's \<open>getSectionItemDetails\<close>, \<open>getSectionDetails\<close> and
  \<open>getModuleDetails\<close>, each the adjacency record of the entity or null.
\<close>

definition repo_getSectionItemDetails :: "string \<Rightarrow> string \<Rightarrow> string \<Rightarrow> store \<Rightarrow> SectionItemNext option" where
  "repo_getSectionItemDetails cid student sectionItemId s =
     find (\<lambda>r. sin_sectionItemId r = sectionItemId) (sectionItemNext s)"

definition repo_getSectionDetails :: "string \<Rightarrow> string \<Rightarrow> string \<Rightarrow> store \<Rightarrow> SectionNext option" where
  "repo_getSectionDetails cid student sectionId s =
     find (\<lambda>r. sn_sectionId r = sectionId) (sectionNext s)"

definition repo_getModuleDetails :: "string \<Rightarrow> string \<Rightarrow> string \<Rightarrow> store \<Rightarrow> ModuleNext option" where
  "repo_getModuleDetails cid student moduleId s =
     find (\<lambda>r. mn_moduleId r = moduleId) (moduleNext s)"

section \<open>The cascade (lines 157-575)\<close>

record UpdatedEntities =
  upd_course :: "string option"
  upd_modules :: "string list option"
  upd_sections :: "string list option"
  upd_sectionItems :: "string list option"

text \<open>
  \<open>updateEntityListFields\<close> (lines 157-173). \<open>updates\<close> is a partial object: an absent
  field is \<open>None\<close>, and an array is truthy even when empty. The course field of the result
  is the first argument's.
\<close>

definition appendField :: "string list option \<Rightarrow> string list option \<Rightarrow> string list option" where
  "appendField old new =
     (case new of
        None \<Rightarrow> old
      | Some ys \<Rightarrow> Some ((case old of None \<Rightarrow> [] | Some xs \<Rightarrow> xs) @ ys))"

definition updateEntityListFields :: "UpdatedEntities \<Rightarrow> UpdatedEntities \<Rightarrow> UpdatedEntities" where
  "updateEntityListFields updatedEntities updates =
     updatedEntities
       \<lparr>upd_modules := appendField (upd_modules updatedEntities) (upd_modules updates),
        upd_sections := appendField (upd_sections updatedEntities) (upd_sections updates),
        upd_sectionItems := appendField (upd_sectionItems updatedEntities) (upd_sectionItems updates)\<rparr>"

text \<open>
  The service's writes are separate round trips: a call that throws keeps the writes made
  before the throw. Every method returns its result, or the error thrown, together with
  the store it leaves. \<open>andThen\<close> continues after a repository write, which on failure has
  written nothing.
\<close>

type_synonym 'a outcome = "(error + 'a) \<times> store"

definition andThen :: "error + store \<Rightarrow> store \<Rightarrow> (store \<Rightarrow> 'a outcome) \<Rightarrow> 'a outcome" where
  "andThen written s continue = (case written of Inl e \<Rightarrow> (Inl e, s) | Inr s' \<Rightarrow> continue s')"

definition updateCourseProgress :: "string \<Rightarrow> string \<Rightarrow> store \<Rightarrow> UpdatedEntities outcome" where
  "updateCourseProgress cid student s =
     andThen (repo_updateCourseProgress cid student s) s (\<lambda>s1.
       (Inr \<lparr>upd_course = Some cid, upd_modules = None, upd_sections = None,
             upd_sectionItems = None\<rparr>, s1))"

definition updateModuleProgress ::
  "string \<Rightarrow> string \<Rightarrow> string \<Rightarrow> bool \<Rightarrow> store \<Rightarrow> UpdatedEntities outcome" where
  "updateModuleProgress cid student moduleId cascade s =
     andThen (repo_updateModuleProgress cid student moduleId COMPLETE s) s (\<lambda>s1.
       case repo_getModuleDetails cid student moduleId s1 of
         None \<Rightarrow> (Inl NotFound, s1)
       | Some moduleDetails \<Rightarrow>
           if cascade then
             (case or_null (mn_nextModuleId moduleDetails) of
                Some nextModuleId \<Rightarrow>
                  andThen (repo_updateModuleProgress cid student nextModuleId IN_PROGRESS s1) s1 (\<lambda>s2.
                    case repo_getModuleDetails cid student nextModuleId s2 of
                      None \<Rightarrow> (Inl NotFound, s2)
                    | Some nextModuleDetails \<Rightarrow>
                        andThen (repo_updateSectionProgress cid student
                                   (mn_sectionId nextModuleDetails) IN_PROGRESS s2) s2 (\<lambda>s3.
                          case repo_getSectionDetails cid student (mn_sectionId nextModuleDetails) s3 of
                            None \<Rightarrow> (Inl NotFound, s3)
                          | Some nextSectionDetails \<Rightarrow>
                              andThen (repo_updateSectionItemProgress cid student
                                         (sn_sectionItemId nextSectionDetails) IN_PROGRESS s3) s3 (\<lambda>s4.
                                (Inr \<lparr>upd_course = None,
                                      upd_modules = Some [moduleId, nextModuleId],
                                      upd_sections = Some [mn_sectionId nextModuleDetails],
                                      upd_sectionItems = Some [sn_sectionItemId nextSectionDetails]\<rparr>,
                                 s4))))
              | None \<Rightarrow>
                  (case updateCourseProgress cid student s1 of
                     (Inl e, s2) \<Rightarrow> (Inl e, s2)
                   | (Inr updatedEntities, s2) \<Rightarrow>
                       (Inr (updateEntityListFields updatedEntities
                               \<lparr>upd_course = None, upd_modules = Some [moduleId],
                                upd_sections = None, upd_sectionItems = None\<rparr>), s2)))
           else (Inr \<lparr>upd_course = None, upd_modules = Some [moduleId], upd_sections = None,
                      upd_sectionItems = None\<rparr>, s1))"

text \<open>
  \<open>updateSectionProgress\<close> (lines 313-405). With no next section the result of
  \<open>updateModuleProgress\<close> is spread into a new object whose \<open>sections\<close> field is then
  given (lines 385-388): the field replaces the one spread.
\<close>

definition updateSectionProgress ::
  "string \<Rightarrow> string \<Rightarrow> string \<Rightarrow> bool \<Rightarrow> store \<Rightarrow> UpdatedEntities outcome" where
  "updateSectionProgress cid student sectionId cascade s =
     andThen (repo_updateSectionProgress cid student sectionId COMPLETE s) s (\<lambda>s1.
       case repo_getSectionDetails cid student sectionId s1 of
         None \<Rightarrow> (Inl NotFound, s1)
       | Some sectionDetails \<Rightarrow>
           if cascade then
             (case or_null (sn_nextSectionId sectionDetails) of
                Some nextSectionId \<Rightarrow>
                  andThen (repo_updateSectionProgress cid student nextSectionId IN_PROGRESS s1) s1 (\<lambda>s2.
                    case repo_getSectionDetails cid student nextSectionId s2 of
                      Some nextSectionDetails \<Rightarrow>
                        andThen (repo_updateSectionItemProgress cid student
                                   (sn_sectionItemId nextSectionDetails) IN_PROGRESS s2) s2 (\<lambda>s3.
                          (Inr \<lparr>upd_course = None, upd_modules = None,
                                upd_sections = Some [sectionId, nextSectionId],
                                upd_sectionItems = Some [sn_sectionItemId nextSectionDetails]\<rparr>,
                           s3))
                    | None \<Rightarrow> (Inl NotFound, s2))
              | None \<Rightarrow>
                  (case updateModuleProgress cid student (sn_moduleId sectionDetails) cascade s1 of
                     (Inl e, s2) \<Rightarrow> (Inl e, s2)
                   | (Inr updatedEntities, s2) \<Rightarrow>
                       (Inr (updatedEntities\<lparr>upd_sections := Some [sectionId]\<rparr>), s2)))
           else (Inr \<lparr>upd_course = None, upd_modules = None, upd_sections = Some [sectionId],
                      upd_sectionItems = None\<rparr>, s1))"

text \<open>
  The body of the loop of \<open>updateSectionItemProgress\<close> (lines 202-292) for one
  \<open>sectionItemId\<close>: the gating check, the write, the cascade. \<open>findFirst\<close> returns the
  first row whose \<open>nextSectionItemId\<close> is the item. The test of line 222 passes when the
  predecessor has no progress row.
\<close>

definition previousSectionItem :: "string \<Rightarrow> store \<Rightarrow> SectionItemNext option" where
  "previousSectionItem sectionItemId s =
     find (\<lambda>r. sin_nextSectionItemId r = Some sectionItemId) (sectionItemNext s)"

definition gated :: "string \<Rightarrow> string \<Rightarrow> string \<Rightarrow> store \<Rightarrow> bool" where
  "gated cid student sectionItemId s =
     (case previousSectionItem sectionItemId s of
        None \<Rightarrow> False
      | Some previous \<Rightarrow>
          (case map_of (studentSectionItemProgress s) (student, sin_sectionItemId previous, cid) of
             None \<Rightarrow> False
           | Some previousItemProgress \<Rightarrow> previousItemProgress \<noteq> COMPLETE))"

definition completeSectionItem ::
  "string \<Rightarrow> string \<Rightarrow> bool \<Rightarrow> string \<Rightarrow> store \<Rightarrow> UpdatedEntities outcome" where
  "completeSectionItem cid student cascade sectionItemId s =
     (if gated cid student sectionItemId s then (Inl GatingViolation, s)
      else
        andThen (repo_updateSectionItemProgress cid student sectionItemId COMPLETE s) s (\<lambda>s1.
          if cascade then
            (case repo_getSectionItemDetails cid student sectionItemId s1 of
               None \<Rightarrow> (Inl NotFound, s1)
             | Some sectionItemDetails \<Rightarrow>
                 (case or_null (sin_nextSectionItemId sectionItemDetails) of
                    Some nextSectionItemId \<Rightarrow>
                      andThen (repo_updateSectionItemProgress cid student nextSectionItemId
                                 IN_PROGRESS s1) s1 (\<lambda>s2.
                        (Inr \<lparr>upd_course = None, upd_modules = None, upd_sections = None,
                              upd_sectionItems = Some [sectionItemId, nextSectionItemId]\<rparr>, s2))
                  | None \<Rightarrow>
                      (case updateSectionProgress cid student (sin_sectionId sectionItemDetails)
                              cascade s1 of
                         (Inl e, s2) \<Rightarrow> (Inl e, s2)
                       | (Inr updatedEntities, s2) \<Rightarrow>
                           (Inr (updateEntityListFields updatedEntities
                                   \<lparr>upd_course = None, upd_modules = None, upd_sections = None,
                                    upd_sectionItems = Some [sectionItemId]\<rparr>), s2))))
          else (Inr \<lparr>upd_course = None, upd_modules = None, upd_sections = None,
                     upd_sectionItems = Some [sectionItemId]\<rparr>, s1)))"

text \<open>The loop over \<open>sectionItemIds\<close>, in the caller's order; \<open>updates\<close> accumulates.\<close>

fun sectionItemIdsLoop ::
  "string \<Rightarrow> string \<Rightarrow> bool \<Rightarrow> string list \<Rightarrow> UpdatedEntities list \<Rightarrow> store
     \<Rightarrow> UpdatedEntities list outcome" where
  "sectionItemIdsLoop cid student cascade [] updates s = (Inr updates, s)"
| "sectionItemIdsLoop cid student cascade (sectionItemId # rest) updates s =
     (case completeSectionItem cid student cascade sectionItemId s of
        (Inl e, s') \<Rightarrow> (Inl e, s')
      | (Inr u, s') \<Rightarrow> sectionItemIdsLoop cid student cascade rest (updates @ [u]) s')"

definition updateSectionItemProgress ::
  "string \<Rightarrow> string \<Rightarrow> string list \<Rightarrow> bool \<Rightarrow> store \<Rightarrow> UpdatedEntities list outcome" where
  "updateSectionItemProgress cid student sectionItemIds cascade s =
     sectionItemIdsLoop cid student cascade sectionItemIds [] s"

section \<open>Example data\<close>

text \<open>
  A course of two modules for one student. The first module lists its sections, and one
  section its items, out of sequence order.
\<close>

definition exampleS11 :: Section where
  "exampleS11 = \<lparr>sec_sectionId = ''S11'', sec_sequence = 1, sec_sectionItems =
     [\<lparr>item_sectionItemId = ''I112'', item_sequence = 2\<rparr>,
      \<lparr>item_sectionItemId = ''I111'', item_sequence = 1\<rparr>]\<rparr>"

definition exampleS12 :: Section where
  "exampleS12 = \<lparr>sec_sectionId = ''S12'', sec_sequence = 2, sec_sectionItems =
     [\<lparr>item_sectionItemId = ''I121'', item_sequence = 1\<rparr>]\<rparr>"

definition exampleS21 :: Section where
  "exampleS21 = \<lparr>sec_sectionId = ''S21'', sec_sequence = 1, sec_sectionItems =
     [\<lparr>item_sectionItemId = ''I211'', item_sequence = 1\<rparr>]\<rparr>"

definition exampleM1 :: Module where
  "exampleM1 = \<lparr>mod_moduleId = ''M1'', mod_sequence = 1, mod_sections = [exampleS12, exampleS11]\<rparr>"

definition exampleM2 :: Module where
  "exampleM2 = \<lparr>mod_moduleId = ''M2'', mod_sequence = 2, mod_sections = [exampleS21]\<rparr>"

definition exampleCourse :: CourseProgressData where
  "exampleCourse = \<lparr>courseInstanceId = ''c'', studentIds = [''u''], modules = [exampleM1, exampleM2]\<rparr>"

text \<open>The same two modules listed second module first.\<close>

definition unorderedCourse :: CourseProgressData where
  "unorderedCourse = \<lparr>courseInstanceId = ''c'', studentIds = [''u''], modules = [exampleM2, exampleM1]\<rparr>"

definition emptyStore :: store where
  "emptyStore = \<lparr>totalProgress = [], studentCourseProgress = [], studentModuleProgress = [],
     studentSectionProgress = [], studentSectionItemProgress = [], moduleNext = [],
     sectionNext = [], sectionItemNext = []\<rparr>"

text \<open>A course whose only section has the empty string as its ID.\<close>

definition unnamedS :: Section where
  "unnamedS = \<lparr>sec_sectionId = '''', sec_sequence = 1, sec_sectionItems =
     [\<lparr>item_sectionItemId = ''I1'', item_sequence = 1\<rparr>]\<rparr>"

definition unnamedM :: Module where
  "unnamedM = \<lparr>mod_moduleId = ''M1'', mod_sequence = 1, mod_sections = [unnamedS]\<rparr>"

definition unnamedSectionCourse :: CourseProgressData where
  "unnamedSectionCourse = \<lparr>courseInstanceId = ''c'', studentIds = [''u''], modules = [unnamedM]\<rparr>"

text \<open>The store that initialising \<open>exampleCourse\<close> on the empty store leaves.\<close>

definition exampleStore :: store where
  "exampleStore =
     \<lparr>totalProgress = [((''u'', ''c''), 0)],
      studentCourseProgress = [((''u'', ''c''), IN_PROGRESS)],
      studentModuleProgress =
        [((''u'', ''M1'', ''c''), IN_PROGRESS), ((''u'', ''M2'', ''c''), INCOMPLETE)],
      studentSectionProgress =
        [((''u'', ''S11'', ''c''), IN_PROGRESS), ((''u'', ''S12'', ''c''), INCOMPLETE),
         ((''u'', ''S21'', ''c''), INCOMPLETE)],
      studentSectionItemProgress =
        [((''u'', ''I111'', ''c''), IN_PROGRESS), ((''u'', ''I112'', ''c''), INCOMPLETE),
         ((''u'', ''I121'', ''c''), INCOMPLETE), ((''u'', ''I211'', ''c''), INCOMPLETE)],
      moduleNext =
        [\<lparr>mn_moduleId = ''M1'', mn_sectionId = ''S11'', mn_nextModuleId = Some ''M2'',
          mn_courseInstanceId = ''c''\<rparr>,
         \<lparr>mn_moduleId = ''M2'', mn_sectionId = ''S21'', mn_nextModuleId = None,
          mn_courseInstanceId = ''c''\<rparr>],
      sectionNext =
        [\<lparr>sn_sectionId = ''S11'', sn_sectionItemId = ''I111'', sn_nextSectionId = Some ''S12'',
          sn_moduleId = ''M1''\<rparr>,
         \<lparr>sn_sectionId = ''S12'', sn_sectionItemId = ''I121'', sn_nextSectionId = None,
          sn_moduleId = ''M1''\<rparr>,
         \<lparr>sn_sectionId = ''S21'', sn_sectionItemId = ''I211'', sn_nextSectionId = None,
          sn_moduleId = ''M2''\<rparr>],
      sectionItemNext =
        [\<lparr>sin_sectionItemId = ''I111'', sin_nextSectionItemId = Some ''I112'',
          sin_sectionId = ''S11''\<rparr>,
         \<lparr>sin_sectionItemId = ''I112'', sin_nextSectionItemId = None, sin_sectionId = ''S11''\<rparr>,
         \<lparr>sin_sectionItemId = ''I121'', sin_nextSectionItemId = None, sin_sectionId = ''S12''\<rparr>,
         \<lparr>sin_sectionItemId = ''I211'', sin_nextSectionItemId = None, sin_sectionId = ''S21''\<rparr>]\<rparr>"

text \<open>\<open>exampleStore\<close> after \<open>I121\<close>, the last item of the last section of \<open>M1\<close>, is completed.\<close>

definition exampleStoreAfterI121 :: store where
  "exampleStoreAfterI121 =
     exampleStore
       \<lparr>studentModuleProgress :=
          [((''u'', ''M1'', ''c''), COMPLETE), ((''u'', ''M2'', ''c''), IN_PROGRESS)],
        studentSectionProgress :=
          [((''u'', ''S11'', ''c''), IN_PROGRESS), ((''u'', ''S12'', ''c''), COMPLETE),
           ((''u'', ''S21'', ''c''), IN_PROGRESS)],
        studentSectionItemProgress :=
          [((''u'', ''I111'', ''c''), IN_PROGRESS), ((''u'', ''I112'', ''c''), INCOMPLETE),
           ((''u'', ''I121'', ''c''), COMPLETE), ((''u'', ''I211'', ''c''), IN_PROGRESS)]\<rparr>"

text \<open>\<open>exampleStore\<close> without the progress row of \<open>I111\<close>, the predecessor of \<open>I112\<close>.\<close>

definition exampleStoreWithoutI111 :: store where
  "exampleStoreWithoutI111 =
     exampleStore
       \<lparr>studentSectionItemProgress :=
          [((''u'', ''I112'', ''c''), INCOMPLETE), ((''u'', ''I121'', ''c''), INCOMPLETE),
           ((''u'', ''I211'', ''c''), INCOMPLETE)]\<rparr>"

text \<open>
  \<open>unorderedCourse\<close> on a heap: the \<open>modules\<close> array at address 0, the \<open>sections\<close> arrays
  of \<open>M1\<close> and \<open>M2\<close> at 1 and 2, the \<open>sectionItems\<close> arrays of \<open>S12\<close>, \<open>S11\<close> and \<open>S21\<close>
  at 3, 4 and 5.
\<close>

definition unorderedHeap :: heap where
  "unorderedHeap =
     \<lparr>nextFree = 6,
      moduleArrays = (\<lambda>_. [])
        (0 := [\<lparr>mo_moduleId = ''M2'', mo_sequence = 2, mo_sections = 2\<rparr>,
               \<lparr>mo_moduleId = ''M1'', mo_sequence = 1, mo_sections = 1\<rparr>]),
      sectionArrays = (\<lambda>_. [])
        (1 := [\<lparr>so_sectionId = ''S12'', so_sequence = 2, so_sectionItems = 3\<rparr>,
               \<lparr>so_sectionId = ''S11'', so_sequence = 1, so_sectionItems = 4\<rparr>],
         2 := [\<lparr>so_sectionId = ''S21'', so_sequence = 1, so_sectionItems = 5\<rparr>]),
      sectionItemArrays = (\<lambda>_. [])
        (3 := [\<lparr>item_sectionItemId = ''I121'', item_sequence = 1\<rparr>],
         4 := [\<lparr>item_sectionItemId = ''I112'', item_sequence = 2\<rparr>,
               \<lparr>item_sectionItemId = ''I111'', item_sequence = 1\<rparr>],
         5 := [\<lparr>item_sectionItemId = ''I211'', item_sequence = 1\<rparr>])\<rparr>"

section \<open>Notions used in the statements and proofs\<close>

text \<open>An operation is accepted when its \<open>create\<close> data gives every required column a value.\<close>

definition accepted :: "operation \<Rightarrow> bool" where
  "accepted operation =
     (case operation of
        UpsertModuleNext d \<Rightarrow> mni_sectionId d \<noteq> None
      | UpsertSectionNext d \<Rightarrow> sni_sectionItemId d \<noteq> None
      | _ \<Rightarrow> True)"

text \<open>
  What the repository's writes never change: the adjacency tables, and which progress rows
  exist.
\<close>

definition skeleton ::
  "store \<Rightarrow> (ModuleNext list \<times> SectionNext list \<times> SectionItemNext list)
     \<times> (courseKey set \<times> entityKey set \<times> entityKey set \<times> entityKey set)" where
  "skeleton s =
     ((moduleNext s, sectionNext s, sectionItemNext s),
      (fst ` set (studentCourseProgress s), fst ` set (studentModuleProgress s),
       fst ` set (studentSectionProgress s), fst ` set (studentSectionItemProgress s)))"

text \<open>
  The records the cascade from a module, a section or an item consults, apart from the
  progress row of the item's predecessor: \<open>...RecordMissing\<close> holds when one of them is
  absent from the store.
\<close>

definition moduleRecordMissing :: "string \<Rightarrow> string \<Rightarrow> string \<Rightarrow> store \<Rightarrow> bool" where
  "moduleRecordMissing cid student moduleId s =
     (map_of (studentModuleProgress s) (student, moduleId, cid) = None \<or>
      (case repo_getModuleDetails cid student moduleId s of
         None \<Rightarrow> True
       | Some moduleDetails \<Rightarrow>
           (case or_null (mn_nextModuleId moduleDetails) of
              None \<Rightarrow> map_of (studentCourseProgress s) (student, cid) = None
            | Some nextModuleId \<Rightarrow>
                map_of (studentModuleProgress s) (student, nextModuleId, cid) = None \<or>
                (case repo_getModuleDetails cid student nextModuleId s of
                   None \<Rightarrow> True
                 | Some nextModuleDetails \<Rightarrow>
                     map_of (studentSectionProgress s)
                       (student, mn_sectionId nextModuleDetails, cid) = None \<or>
                     (case repo_getSectionDetails cid student (mn_sectionId nextModuleDetails) s of
                        None \<Rightarrow> True
                      | Some nextSectionDetails \<Rightarrow>
                          map_of (studentSectionItemProgress s)
                            (student, sn_sectionItemId nextSectionDetails, cid) = None)))))"

definition sectionRecordMissing :: "string \<Rightarrow> string \<Rightarrow> string \<Rightarrow> store \<Rightarrow> bool" where
  "sectionRecordMissing cid student sectionId s =
     (map_of (studentSectionProgress s) (student, sectionId, cid) = None \<or>
      (case repo_getSectionDetails cid student sectionId s of
         None \<Rightarrow> True
       | Some sectionDetails \<Rightarrow>
           (case or_null (sn_nextSectionId sectionDetails) of
              None \<Rightarrow> moduleRecordMissing cid student (sn_moduleId sectionDetails) s
            | Some nextSectionId \<Rightarrow>
                map_of (studentSectionProgress s) (student, nextSectionId, cid) = None \<or>
                (case repo_getSectionDetails cid student nextSectionId s of
                   None \<Rightarrow> True
                 | Some nextSectionDetails \<Rightarrow>
                     map_of (studentSectionItemProgress s)
                       (student, sn_sectionItemId nextSectionDetails, cid) = None))))"

definition itemRecordMissing :: "string \<Rightarrow> string \<Rightarrow> bool \<Rightarrow> string \<Rightarrow> store \<Rightarrow> bool" where
  "itemRecordMissing cid student cascade sectionItemId s =
     (map_of (studentSectionItemProgress s) (student, sectionItemId, cid) = None \<or>
      (cascade \<and>
       (case repo_getSectionItemDetails cid student sectionItemId s of
          None \<Rightarrow> True
        | Some sectionItemDetails \<Rightarrow>
            (case or_null (sin_nextSectionItemId sectionItemDetails) of
               None \<Rightarrow> sectionRecordMissing cid student (sin_sectionId sectionItemDetails) s
             | Some nextSectionItemId \<Rightarrow>
                 map_of (studentSectionItemProgress s) (student, nextSectionItemId, cid) = None))))"

text \<open>
  \<open>covered operation s\<close>: every progress row the operation would create already exists
  in \<open>s\<close>. \<open>progressRowsExist cd student s\<close>: the store has the student's course row and a
  row for every module, section and section item of the curriculum.
\<close>

fun covered :: "operation \<Rightarrow> store \<Rightarrow> bool" where
  "covered (UpsertCourseProgress k) s = (k \<in> fst ` set (studentCourseProgress s))"
| "covered (CreateManyModuleProgress rows) s =
     (fst ` set rows \<subseteq> fst ` set (studentModuleProgress s))"
| "covered (CreateManySectionProgress rows) s =
     (fst ` set rows \<subseteq> fst ` set (studentSectionProgress s))"
| "covered (CreateManySectionItemProgress rows) s =
     (fst ` set rows \<subseteq> fst ` set (studentSectionItemProgress s))"
| "covered _ s = True"

definition progressRowsExist :: "CourseProgressData \<Rightarrow> string \<Rightarrow> store \<Rightarrow> bool" where
  "progressRowsExist cd student s =
     ((student, courseInstanceId cd) \<in> fst ` set (studentCourseProgress s)
      \<and> (\<lambda>m. (student, mod_moduleId m, courseInstanceId cd)) ` set (modules cd)
          \<subseteq> fst ` set (studentModuleProgress s)
      \<and> (\<lambda>sec. (student, sec_sectionId sec, courseInstanceId cd))
            ` (\<Union>m\<in>set (modules cd). set (mod_sections m))
          \<subseteq> fst ` set (studentSectionProgress s)
      \<and> (\<lambda>i. (student, item_sectionItemId i, courseInstanceId cd))
            ` (\<Union>m\<in>set (modules cd). \<Union>sec\<in>set (mod_sections m). set (sec_sectionItems sec))
          \<subseteq> fst ` set (studentSectionItemProgress s))"

section \<open>Properties\<close>

subsection \<open>Lists\<close>

lemma find_filter_single: "filter P xs = [x] \<Longrightarrow> find P xs = Some x"
  by (induction xs) (auto split: if_splits)

lemma find_None_if_none: "\<forall>x\<in>set xs. \<not> P x \<Longrightarrow> find P xs = None"
  by (induction xs) auto

lemma sort_key_twice: "sort_key f (sort_key f xs) = sort_key f xs"
  by (rule sort_key_id_if_sorted) simp

lemma insort_key_map: "insort_key f (g x) (map g xs) = map g (insort_key (\<lambda>y. f (g y)) x xs)"
  by (induction xs) auto

lemma sort_key_map: "sort_key f (map g xs) = map g (sort_key (\<lambda>y. f (g y)) xs)"
  by (induction xs) (auto simp: insort_key_map)

subsection \<open>getNextData\<close>

lemma length_sectionNextOf: "length (sectionNextOf m) = length (mod_sections m)"
  by (simp add: sectionNextOf_def)

lemma length_sectionItemNextOf: "length (sectionItemNextOf s) = length (sec_sectionItems s)"
  by (simp add: sectionItemNextOf_def)

lemma at_index_Suc:
  "at_index xs (Suc k) = (if Suc k < length xs then Some (xs ! Suc k) else None)"
  by (simp add: at_index_def)

lemma nth_sectionNextOf:
  assumes "k < length (mod_sections m)"
  shows "sni_sectionId (sectionNextOf m ! k) = sec_sectionId (mod_sections m ! k)"
    and "sni_moduleId (sectionNextOf m ! k) = mod_moduleId m"
    and "sni_nextSectionId (sectionNextOf m ! k) =
           (if Suc k < length (mod_sections m)
            then or_null (Some (sec_sectionId (mod_sections m ! Suc k))) else None)"
  using assms by (simp_all add: sectionNextOf_def nth_enumerate_eq at_index_def or_null_def)

lemma nth_sectionItemNextOf:
  assumes "k < length (sec_sectionItems s)"
  shows "ini_sectionItemId (sectionItemNextOf s ! k) = item_sectionItemId (sec_sectionItems s ! k)"
    and "ini_sectionId (sectionItemNextOf s ! k) = sec_sectionId s"
    and "ini_nextSectionItemId (sectionItemNextOf s ! k) =
           (if Suc k < length (sec_sectionItems s)
            then or_null (Some (item_sectionItemId (sec_sectionItems s ! Suc k))) else None)"
  using assms by (simp_all add: sectionItemNextOf_def nth_enumerate_eq at_index_def or_null_def)

lemma last_sectionNextOf:
  assumes "mod_sections m \<noteq> []"
  shows "sni_nextSectionId (last (sectionNextOf m)) = None"
    and "sni_sectionId (last (sectionNextOf m)) = sec_sectionId (last (mod_sections m))"
proof -
  let ?n = "length (mod_sections m)"
  have n: "?n - 1 < ?n" using assms by simp
  have ne: "sectionNextOf m \<noteq> []" using assms length_sectionNextOf [of m] by auto
  have l: "last (sectionNextOf m) = sectionNextOf m ! (?n - 1)"
    using ne by (simp add: last_conv_nth length_sectionNextOf)
  show "sni_nextSectionId (last (sectionNextOf m)) = None"
    using nth_sectionNextOf(3) [OF n] assms by (simp add: l)
  show "sni_sectionId (last (sectionNextOf m)) = sec_sectionId (last (mod_sections m))"
    using nth_sectionNextOf(1) [OF n] assms by (simp add: l last_conv_nth)
qed

lemma last_sectionItemNextOf:
  assumes "sec_sectionItems s \<noteq> []"
  shows "ini_nextSectionItemId (last (sectionItemNextOf s)) = None"
    and "ini_sectionItemId (last (sectionItemNextOf s)) = item_sectionItemId (last (sec_sectionItems s))"
proof -
  let ?n = "length (sec_sectionItems s)"
  have n: "?n - 1 < ?n" using assms by simp
  have ne: "sectionItemNextOf s \<noteq> []" using assms length_sectionItemNextOf [of s] by auto
  have l: "last (sectionItemNextOf s) = sectionItemNextOf s ! (?n - 1)"
    using ne by (simp add: last_conv_nth length_sectionItemNextOf)
  show "ini_nextSectionItemId (last (sectionItemNextOf s)) = None"
    using nth_sectionItemNextOf(3) [OF n] assms by (simp add: l)
  show "ini_sectionItemId (last (sectionItemNextOf s)) = item_sectionItemId (last (sec_sectionItems s))"
    using nth_sectionItemNextOf(1) [OF n] assms by (simp add: l last_conv_nth)
qed

text \<open>
  C5: next pointers never cross a parent boundary. The records of a module's sections are
  one block of \<open>sectionNextData\<close>, built from that module's \<open>sections\<close> array alone: the
  record of its last section has \<open>nextSectionId = null\<close> whatever modules follow, and every
  other record points at the section after it in the same array. Likewise for the items of
  a section.
\<close>

theorem next_pointers_stay_within_parent:
  assumes "modules cd = before @ m # after"
    and "mod_sections m = sbefore @ s # safter"
  shows "sectionNextData (getNextData cd)
           = concat (map sectionNextOf before) @ sectionNextOf m @ concat (map sectionNextOf after)
       \<and> sectionItemNextData (getNextData cd)
           = concat (map (\<lambda>m. concat (map sectionItemNextOf (mod_sections m))) before)
             @ (concat (map sectionItemNextOf sbefore) @ sectionItemNextOf s
                @ concat (map sectionItemNextOf safter))
             @ concat (map (\<lambda>m. concat (map sectionItemNextOf (mod_sections m))) after)
       \<and> length (sectionNextOf m) = length (mod_sections m)
       \<and> sni_sectionId (last (sectionNextOf m)) = sec_sectionId (last (mod_sections m))
       \<and> sni_nextSectionId (last (sectionNextOf m)) = None
       \<and> (\<forall>k < length (mod_sections m).
             sni_sectionId (sectionNextOf m ! k) = sec_sectionId (mod_sections m ! k)
           \<and> sni_moduleId (sectionNextOf m ! k) = mod_moduleId m
           \<and> sni_nextSectionId (sectionNextOf m ! k) =
               (if Suc k < length (mod_sections m)
                then or_null (Some (sec_sectionId (mod_sections m ! Suc k))) else None))
       \<and> length (sectionItemNextOf s) = length (sec_sectionItems s)
       \<and> (sec_sectionItems s \<noteq> [] \<longrightarrow>
             ini_sectionItemId (last (sectionItemNextOf s)) = item_sectionItemId (last (sec_sectionItems s))
           \<and> ini_nextSectionItemId (last (sectionItemNextOf s)) = None)
       \<and> (\<forall>k < length (sec_sectionItems s).
             ini_sectionItemId (sectionItemNextOf s ! k) = item_sectionItemId (sec_sectionItems s ! k)
           \<and> ini_sectionId (sectionItemNextOf s ! k) = sec_sectionId s
           \<and> ini_nextSectionItemId (sectionItemNextOf s ! k) =
               (if Suc k < length (sec_sectionItems s)
                then or_null (Some (item_sectionItemId (sec_sectionItems s ! Suc k))) else None))"
proof -
  have ne: "mod_sections m \<noteq> []" using assms(2) by simp
  have a: "sectionNextData (getNextData cd)
           = concat (map sectionNextOf before) @ sectionNextOf m @ concat (map sectionNextOf after)"
    by (simp add: getNextData_def assms(1))
  have b: "sectionItemNextData (getNextData cd)
           = concat (map (\<lambda>m. concat (map sectionItemNextOf (mod_sections m))) before)
             @ (concat (map sectionItemNextOf sbefore) @ sectionItemNextOf s
                @ concat (map sectionItemNextOf safter))
             @ concat (map (\<lambda>m. concat (map sectionItemNextOf (mod_sections m))) after)"
    by (simp add: getNextData_def assms)
  show ?thesis
    using a b last_sectionNextOf [OF ne] last_sectionItemNextOf [of s]
      nth_sectionNextOf [of _ m] nth_sectionItemNextOf [of _ s]
    by (simp add: length_sectionNextOf length_sectionItemNextOf)
qed

theorem next_pointers_stay_within_parent_witness:
  "modules exampleCourse = [] @ exampleM1 # [exampleM2]
   \<and> mod_sections exampleM1 = [exampleS12] @ exampleS11 # []
   \<and> sni_sectionId (last (sectionNextOf exampleM1)) = ''S11''
   \<and> sni_nextSectionId (last (sectionNextOf exampleM1)) = None
   \<and> ini_sectionItemId (last (sectionItemNextOf exampleS11)) = ''I111''
   \<and> ini_nextSectionItemId (last (sectionItemNextOf exampleS11)) = None
   \<and> map sni_sectionId (sectionNextData (getNextData exampleCourse)) = [''S12'', ''S11'', ''S21'']"
proof -
  have h1: "modules exampleCourse = [] @ exampleM1 # [exampleM2]"
    by (simp add: exampleCourse_def)
  have h2: "mod_sections exampleM1 = [exampleS12] @ exampleS11 # []"
    by (simp add: exampleM1_def)
  show ?thesis
    using next_pointers_stay_within_parent [OF h1 h2]
    by (simp add: exampleCourse_def exampleM1_def exampleM2_def exampleS11_def exampleS12_def
        exampleS21_def sectionNextOf_def or_null_def at_index_def)
qed

subsection \<open>extractAllIds\<close>

lemma sortItemsOf_fields [simp]:
  "sec_sectionId (sortItemsOf s) = sec_sectionId s"
  "sec_sequence (sortItemsOf s) = sec_sequence s"
  "sec_sectionItems (sortItemsOf s) = sort_key item_sequence (sec_sectionItems s)"
  by (simp_all add: sortItemsOf_def)

lemma sortSectionsOf_fields [simp]:
  "mod_moduleId (sortSectionsOf m) = mod_moduleId m"
  "mod_sequence (sortSectionsOf m) = mod_sequence m"
  "mod_sections (sortSectionsOf m) = map sortItemsOf (sort_key sec_sequence (mod_sections m))"
  by (simp_all add: sortSectionsOf_def)

lemma filter_sorted_single:
  assumes "filter P xs = [x]"
  shows "filter P (sort_key f xs) = [x]"
  by (simp add: filter_sort assms)

lemma first_module_found:
  assumes "filter (\<lambda>m. mod_sequence m = 1) (modules cd) = [m]"
  shows "find (\<lambda>m. mod_sequence m = 1) (extractAllIds_sorted cd) = Some (sortSectionsOf m)"
proof -
  have "filter (\<lambda>m. mod_sequence m = 1) (extractAllIds_sorted cd)
          = map sortSectionsOf (filter (\<lambda>m. mod_sequence m = 1) (sort_key mod_sequence (modules cd)))"
    by (simp add: extractAllIds_sorted_def filter_map comp_def)
  also have "\<dots> = [sortSectionsOf m]"
    by (simp add: filter_sorted_single [OF assms])
  finally show ?thesis by (rule find_filter_single)
qed

lemma first_section_found:
  assumes "filter (\<lambda>s. sec_sequence s = 1) (mod_sections m) = [s]"
  shows "find (\<lambda>s. sec_sequence s = 1) (map sortItemsOf (sort_key sec_sequence (mod_sections m)))
           = Some (sortItemsOf s)"
proof -
  have "filter (\<lambda>s. sec_sequence s = 1) (map sortItemsOf (sort_key sec_sequence (mod_sections m)))
          = map sortItemsOf (filter (\<lambda>s. sec_sequence s = 1) (sort_key sec_sequence (mod_sections m)))"
    by (simp add: filter_map comp_def)
  also have "\<dots> = [sortItemsOf s]"
    by (simp add: filter_sorted_single [OF assms])
  finally show ?thesis by (rule find_filter_single)
qed

lemma first_item_found:
  assumes "filter (\<lambda>i. item_sequence i = 1) (sec_sectionItems s) = [i]"
  shows "find (\<lambda>i. item_sequence i = 1) (sort_key item_sequence (sec_sectionItems s)) = Some i"
  by (rule find_filter_single) (simp add: filter_sorted_single [OF assms])

lemma no_first_module:
  assumes "\<forall>m\<in>set (modules cd). mod_sequence m \<noteq> 1"
  shows "find (\<lambda>m. mod_sequence m = 1) (extractAllIds_sorted cd) = None"
  by (rule find_None_if_none) (use assms in \<open>auto simp: extractAllIds_sorted_def\<close>)

lemma sortItemsOf_twice: "sortItemsOf (sortItemsOf sec) = sortItemsOf sec"
  by (simp add: sortItemsOf_def sort_key_twice)

lemma sortSectionsOf_twice: "sortSectionsOf (sortSectionsOf m) = sortSectionsOf m"
proof -
  have "sort_key sec_sequence (map sortItemsOf (sort_key sec_sequence (mod_sections m)))
          = map sortItemsOf (sort_key sec_sequence (mod_sections m))"
    by (rule sort_key_id_if_sorted) (simp add: comp_def)
  then show ?thesis
    by (simp add: sortSectionsOf_def sortItemsOf_twice comp_def)
qed

text \<open>A second call sees the caller's object as the first left it; it changes nothing more.\<close>

lemma extractAllIds_input_twice:
  "extractAllIds_input (extractAllIds_input cd) = extractAllIds_input cd"
  by (simp add: extractAllIds_input_def sortSectionsOf_twice comp_def)

lemmas example_course_defs =
  exampleCourse_def exampleM1_def exampleM2_def exampleS11_def exampleS12_def exampleS21_def

text \<open>
  What \<open>extractAllIds\<close> reports for the first chain, each output under the hypotheses it
  needs: \<open>firstModule\<close> is returned as found, \<open>firstSection\<close> and \<open>firstSectionItem\<close> pass
  through \<open>|| null\<close>.
\<close>

lemma first_chain_outputs:
  assumes "filter (\<lambda>m. mod_sequence m = 1) (modules cd) = [m]"
  shows "firstModule (extractAllIds cd) = Some (mod_moduleId m)"
    and "filter (\<lambda>s. sec_sequence s = 1) (mod_sections m) = [s] \<Longrightarrow> sec_sectionId s \<noteq> []
           \<Longrightarrow> firstSection (extractAllIds cd) = Some (sec_sectionId s)"
    and "filter (\<lambda>s. sec_sequence s = 1) (mod_sections m) = [s]
           \<Longrightarrow> filter (\<lambda>i. item_sequence i = 1) (sec_sectionItems s) = [i]
           \<Longrightarrow> item_sectionItemId i \<noteq> []
           \<Longrightarrow> firstSectionItem (extractAllIds cd) = Some (item_sectionItemId i)"
proof -
  note fm = first_module_found [OF assms]
  show "firstModule (extractAllIds cd) = Some (mod_moduleId m)"
    by (simp add: extractAllIds_def Let_def fm)
  show "firstSection (extractAllIds cd) = Some (sec_sectionId s)"
    if h2: "filter (\<lambda>s. sec_sequence s = 1) (mod_sections m) = [s]" and "sec_sectionId s \<noteq> []"
    using that(2) by (simp add: extractAllIds_def Let_def fm first_section_found [OF h2] or_null_def)
  show "firstSectionItem (extractAllIds cd) = Some (item_sectionItemId i)"
    if h2: "filter (\<lambda>s. sec_sequence s = 1) (mod_sections m) = [s]"
      and h3: "filter (\<lambda>i. item_sequence i = 1) (sec_sectionItems s) = [i]"
      and "item_sectionItemId i \<noteq> []"
    using that(3)
    by (simp add: extractAllIds_def Let_def fm first_section_found [OF h2]
        first_item_found [OF h3] or_null_def)
qed

lemma no_first_chain:
  assumes "\<forall>m\<in>set (modules cd). mod_sequence m \<noteq> 1"
  shows "firstModule (extractAllIds cd) = None"
    and "firstSection (extractAllIds cd) = None"
    and "firstSectionItem (extractAllIds cd) = None"
  by (simp_all add: extractAllIds_def Let_def no_first_module [OF assms])

lemma first_chain_of_exampleCourse:
  "firstModule (extractAllIds exampleCourse) = Some ''M1''
   \<and> firstSection (extractAllIds exampleCourse) = Some ''S11''
   \<and> firstSectionItem (extractAllIds exampleCourse) = Some ''I111''
   \<and> firstModule (extractAllIds (exampleCourse\<lparr>modules := [exampleM2]\<rparr>)) = None
   \<and> firstSection (extractAllIds (exampleCourse\<lparr>modules := [exampleM2]\<rparr>)) = None
   \<and> firstSectionItem (extractAllIds (exampleCourse\<lparr>modules := [exampleM2]\<rparr>)) = None"
proof -
  have h1: "filter (\<lambda>m. mod_sequence m = 1) (modules exampleCourse) = [exampleM1]"
    and h2: "filter (\<lambda>s. sec_sequence s = 1) (mod_sections exampleM1) = [exampleS11]"
    and h3: "filter (\<lambda>i. item_sequence i = 1) (sec_sectionItems exampleS11)
               = [\<lparr>item_sectionItemId = ''I111'', item_sequence = 1\<rparr>]"
    and none: "\<forall>m\<in>set (modules (exampleCourse\<lparr>modules := [exampleM2]\<rparr>)). mod_sequence m \<noteq> 1"
    by (simp_all add: example_course_defs)
  show ?thesis
    using first_chain_outputs(1) [OF h1] first_chain_outputs(2) [OF h1 h2]
      first_chain_outputs(3) [OF h1 h2 h3] no_first_chain [OF none]
    by (simp add: example_course_defs)
qed

text \<open>
  C8, at the failing input: \<open>unnamedSectionCourse\<close> has exactly one child with sequence 1 in
  every scope, and the ID of its section is the empty string. \<open>firstModule\<close> and
  \<open>firstSectionItem\<close> are the IDs of the module and the item of the first chain, and
  \<open>firstSection\<close> is null instead of the section's ID.
\<close>

theorem empty_section_id_reported_as_null:
  "filter (\<lambda>m. mod_sequence m = 1) (modules unnamedSectionCourse) = [unnamedM]
   \<and> filter (\<lambda>s. sec_sequence s = 1) (mod_sections unnamedM) = [unnamedS]
   \<and> filter (\<lambda>i. item_sequence i = 1) (sec_sectionItems unnamedS)
        = [\<lparr>item_sectionItemId = ''I1'', item_sequence = 1\<rparr>]
   \<and> mod_moduleId unnamedM = ''M1'' \<and> sec_sectionId unnamedS = []
   \<and> firstModule (extractAllIds unnamedSectionCourse) = Some ''M1''
   \<and> firstSection (extractAllIds unnamedSectionCourse) = None
   \<and> firstSectionItem (extractAllIds unnamedSectionCourse) = Some ''I1''"
  by (simp add: unnamedSectionCourse_def unnamedM_def unnamedS_def extractAllIds_def
      extractAllIds_sorted_def sortSectionsOf_def sortItemsOf_def or_null_def)

subsection \<open>The transaction\<close>

lemma accepted_simps [simp]:
  "accepted (UpsertTotalProgress k)"
  "accepted (UpsertCourseProgress k)"
  "accepted (CreateManyModuleProgress rows)"
  "accepted (CreateManySectionProgress rows)"
  "accepted (CreateManySectionItemProgress rows)"
  "accepted (UpsertModuleNext dm) = (mni_sectionId dm \<noteq> None)"
  "accepted (UpsertSectionNext ds) = (sni_sectionItemId ds \<noteq> None)"
  "accepted (UpsertSectionItemNext di)"
  by (simp_all add: accepted_def)

lemma accepted_map:
  "list_all accepted (map UpsertModuleNext dms) = list_all (\<lambda>d. mni_sectionId d \<noteq> None) dms"
  "list_all accepted (map UpsertSectionNext dss) = list_all (\<lambda>d. sni_sectionItemId d \<noteq> None) dss"
  "list_all accepted (map UpsertSectionItemNext dis)"
  by (induction dms, simp_all, induction dss, simp_all, induction dis, simp_all)

lemma run_accepted: "accepted operation \<Longrightarrow> \<exists>s'. run operation s = Inr s'"
  by (cases operation)
     (auto simp: accepted_def upsertModuleNext_def upsertSectionNext_def split: option.splits)

lemma run_refused: "\<not> accepted operation \<Longrightarrow> run operation s = Inl ValidationError"
  by (cases operation)
     (auto simp: accepted_def upsertModuleNext_def upsertSectionNext_def split: option.splits)

lemma transaction_accepted:
  "list_all accepted operations \<Longrightarrow> \<exists>s'. transaction operations s = Inr s'"
proof (induction operations arbitrary: s)
  case Nil
  then show ?case by simp
next
  case (Cons operation operations)
  then obtain s1 where "run operation s = Inr s1"
    using run_accepted [of operation s] by auto
  then show ?case using Cons by simp
qed

lemma transaction_refused:
  "\<not> list_all accepted operations \<Longrightarrow> \<exists>e. transaction operations s = Inl e"
proof (induction operations arbitrary: s)
  case Nil
  then show ?case by simp
next
  case (Cons operation operations)
  show ?case
  proof (cases "accepted operation")
    case True
    then obtain s1 where "run operation s = Inr s1"
      using run_accepted [of operation s] by auto
    then show ?thesis using Cons True by simp
  next
    case False
    then show ?thesis by (simp add: run_refused)
  qed
qed

subsection \<open>Counting the prepared rows\<close>

lemma length_sectionItemLoop:
  "length (sectionItemLoop cid student sectionProgress first items) = length items"
  by (induction items arbitrary: first) auto

lemma sectionLoop_Cons:
  "sectionLoop cid student moduleProgress first (section # sections) =
     (((student, sec_sectionId section, cid),
       if moduleProgress = IN_PROGRESS \<and> \<not> first then IN_PROGRESS else INCOMPLETE)
      # fst (sectionLoop cid student moduleProgress True sections),
      sectionItemLoop cid student
        (if moduleProgress = IN_PROGRESS \<and> \<not> first then IN_PROGRESS else INCOMPLETE)
        False (sec_sectionItems section)
      @ snd (sectionLoop cid student moduleProgress True sections))"
  by (simp add: Let_def split_beta)

lemma moduleLoop_Cons:
  "moduleLoop s cid student previous (m # ms) =
     (((student, mod_moduleId m, cid), if previous then IN_PROGRESS else INCOMPLETE)
      # fst (moduleLoop s cid student
               (map_of (studentModuleProgress s) (student, mod_moduleId m, cid) = Some COMPLETE) ms),
      fst (sectionLoop cid student (if previous then IN_PROGRESS else INCOMPLETE) False (mod_sections m))
      @ fst (snd (moduleLoop s cid student
               (map_of (studentModuleProgress s) (student, mod_moduleId m, cid) = Some COMPLETE) ms)),
      snd (sectionLoop cid student (if previous then IN_PROGRESS else INCOMPLETE) False (mod_sections m))
      @ snd (snd (moduleLoop s cid student
               (map_of (studentModuleProgress s) (student, mod_moduleId m, cid) = Some COMPLETE) ms)))"
  by (simp add: Let_def split_beta)

lemma length_sectionLoop:
  "length (fst (sectionLoop cid student moduleProgress first sections)) = length sections"
  "length (snd (sectionLoop cid student moduleProgress first sections))
     = (\<Sum>sec\<leftarrow>sections. length (sec_sectionItems sec))"
  by (induction sections arbitrary: first)
     (simp_all add: sectionLoop_Cons length_sectionItemLoop del: sectionLoop.simps(2))

lemma length_moduleLoop:
  "length (fst (moduleLoop s cid student previous ms)) = length ms"
  "length (fst (snd (moduleLoop s cid student previous ms)))
     = (\<Sum>m\<leftarrow>ms. length (mod_sections m))"
  "length (snd (snd (moduleLoop s cid student previous ms)))
     = (\<Sum>m\<leftarrow>ms. \<Sum>sec\<leftarrow>mod_sections m. length (sec_sectionItems sec))"
  by (induction ms arbitrary: previous)
     (simp_all add: moduleLoop_Cons length_sectionLoop del: moduleLoop.simps(2))

lemma sum_list_insort_key: "(\<Sum>x\<leftarrow>insort_key f a xs. g x) = g a + (\<Sum>x\<leftarrow>xs. (g x :: nat))"
  by (induction xs) auto

lemma sum_list_sort_key: "(\<Sum>x\<leftarrow>sort_key f xs. g x) = (\<Sum>x\<leftarrow>xs. (g x :: nat))"
  by (induction xs) (auto simp: sum_list_insort_key)

lemma count_sorted_input:
  "length (modules (extractAllIds_input cd)) = length (modules cd)"
  "(\<Sum>m\<leftarrow>modules (extractAllIds_input cd). length (mod_sections m))
     = (\<Sum>m\<leftarrow>modules cd. length (mod_sections m))"
  "(\<Sum>m\<leftarrow>modules (extractAllIds_input cd). \<Sum>sec\<leftarrow>mod_sections m. length (sec_sectionItems sec))
     = (\<Sum>m\<leftarrow>modules cd. \<Sum>sec\<leftarrow>mod_sections m. length (sec_sectionItems sec))"
  by (simp_all add: extractAllIds_input_def sortSectionsOf_def sortItemsOf_def comp_def
      sum_list_sort_key)

lemma studentRecords_count:
  "snd (studentRecords s cd student)
     = 1 + (length (modules cd) + (\<Sum>m\<leftarrow>modules cd. length (mod_sections m))
            + (\<Sum>m\<leftarrow>modules cd. \<Sum>sec\<leftarrow>mod_sections m. length (sec_sectionItems sec)))"
  by (simp add: studentRecords_def Let_def split_beta length_moduleLoop)

lemma studentLoop_count:
  "snd (studentLoop s cd students (records, n))
     = n + length students
           * (1 + (length (modules cd) + (\<Sum>m\<leftarrow>modules cd. length (mod_sections m))
                   + (\<Sum>m\<leftarrow>modules cd. \<Sum>sec\<leftarrow>mod_sections m. length (sec_sectionItems sec))))"
proof (induction students arbitrary: records n)
  case Nil
  then show ?case by simp
next
  case (Cons student students)
  show ?case
    using Cons [of "records @ fst (studentRecords s cd student)" "n + snd (studentRecords s cd student)"]
    by (simp add: split_beta studentRecords_count)
qed

lemma accepted_studentRecords:
  "list_all accepted (fst (studentRecords s cd student))
     = (list_all (\<lambda>d. mni_sectionId d \<noteq> None) (moduleNextData (getNextData cd))
        \<and> list_all (\<lambda>d. sni_sectionItemId d \<noteq> None) (sectionNextData (getNextData cd)))"
  by (simp add: studentRecords_def Let_def split_beta accepted_map)

lemma accepted_studentLoop:
  "list_all accepted (fst (studentLoop s cd students (records, n)))
     = (list_all accepted records
        \<and> (students = []
           \<or> (list_all (\<lambda>d. mni_sectionId d \<noteq> None) (moduleNextData (getNextData cd))
              \<and> list_all (\<lambda>d. sni_sectionItemId d \<noteq> None) (sectionNextData (getNextData cd)))))"
proof (induction students arbitrary: records n)
  case Nil
  then show ?case by simp
next
  case (Cons student students)
  show ?case
    using Cons [of "records @ fst (studentRecords s cd student)" "n + snd (studentRecords s cd student)"]
    by (auto simp: split_beta accepted_studentRecords)
qed

text \<open>
  C9: \<open>initializeStudentProgress\<close> returns, unless an adjacency record lacks its required
  first child, and then \<open>totalRecords\<close> is the number of students times one plus the
  numbers of modules, sections and section items of the input. The count is of the rows
  prepared: it does not depend on the store, so a second run returns the same value.
\<close>

theorem totalRecords_counts_prepared_rows:
  "fst (initializeStudentProgress cd s) =
     (if studentIds cd = []
         \<or> (list_all (\<lambda>d. mni_sectionId d \<noteq> None) (moduleNextData (getNextData (extractAllIds_input cd)))
            \<and> list_all (\<lambda>d. sni_sectionItemId d \<noteq> None)
                 (sectionNextData (getNextData (extractAllIds_input cd))))
      then Inr \<lparr>studentCount = length (studentIds cd),
                totalRecords = length (studentIds cd)
                  * (1 + length (modules cd) + (\<Sum>m\<leftarrow>modules cd. length (mod_sections m))
                     + (\<Sum>m\<leftarrow>modules cd. \<Sum>sec\<leftarrow>mod_sections m. length (sec_sectionItems sec)))\<rparr>
      else Inl InitializationFailed)"
proof -
  let ?cd = "extractAllIds_input cd"
  let ?loop = "studentLoop s ?cd (studentIds ?cd) ([], 0)"
  have ids: "studentIds ?cd = studentIds cd"
    by (simp add: extractAllIds_input_def)
  have total: "snd ?loop = length (studentIds cd)
                  * (1 + length (modules cd) + (\<Sum>m\<leftarrow>modules cd. length (mod_sections m))
                     + (\<Sum>m\<leftarrow>modules cd. \<Sum>sec\<leftarrow>mod_sections m. length (sec_sectionItems sec)))"
    by (simp add: studentLoop_count count_sorted_input ids)
  show ?thesis
  proof (cases "list_all accepted (fst ?loop)")
    case True
    then obtain s' where "transaction (fst ?loop) s = Inr s'"
      using transaction_accepted by blast
    moreover have "studentIds cd = []
         \<or> (list_all (\<lambda>d. mni_sectionId d \<noteq> None) (moduleNextData (getNextData ?cd))
            \<and> list_all (\<lambda>d. sni_sectionItemId d \<noteq> None) (sectionNextData (getNextData ?cd)))"
      using True by (simp add: accepted_studentLoop ids)
    ultimately show ?thesis
      using total by (simp add: initializeStudentProgress_def Let_def split_beta ids)
  next
    case False
    then obtain e where "transaction (fst ?loop) s = Inl e"
      using transaction_refused by blast
    moreover have "\<not> (studentIds cd = []
         \<or> (list_all (\<lambda>d. mni_sectionId d \<noteq> None) (moduleNextData (getNextData ?cd))
            \<and> list_all (\<lambda>d. sni_sectionItemId d \<noteq> None) (sectionNextData (getNextData ?cd))))"
      using False by (simp add: accepted_studentLoop ids)
    ultimately show ?thesis
      by (simp add: initializeStudentProgress_def Let_def split_beta ids)
  qed
qed

theorem totalRecords_counts_prepared_rows_witness:
  "fst (initializeStudentProgress exampleCourse emptyStore)
     = Inr \<lparr>studentCount = 1, totalRecords = 10\<rparr>
   \<and> fst (initializeStudentProgress exampleCourse
             (snd (initializeStudentProgress exampleCourse emptyStore)))
     = Inr \<lparr>studentCount = 1, totalRecords = 10\<rparr>"
  using totalRecords_counts_prepared_rows [of exampleCourse emptyStore]
    totalRecords_counts_prepared_rows [of exampleCourse
      "snd (initializeStudentProgress exampleCourse emptyStore)"]
  by (simp add: exampleCourse_def exampleM1_def exampleM2_def exampleS11_def exampleS12_def
      exampleS21_def extractAllIds_input_def sortSectionsOf_def sortItemsOf_def getNextData_def
      moduleNextOf_def sectionNextOf_def or_null_def at_index_def)

subsection \<open>The example store\<close>

lemmas example_defs =
  exampleCourse_def exampleM1_def exampleM2_def exampleS11_def exampleS12_def exampleS21_def

lemmas cascade_defs =
  updateSectionItemProgress_def completeSectionItem_def updateSectionProgress_def
  updateModuleProgress_def updateCourseProgress_def updateEntityListFields_def appendField_def
  andThen_def gated_def previousSectionItem_def or_null_def markProgress_def
  repo_updateSectionItemProgress_def repo_updateSectionProgress_def repo_updateModuleProgress_def
  repo_updateCourseProgress_def repo_getSectionItemDetails_def repo_getSectionDetails_def
  repo_getModuleDetails_def

lemma exampleStore_initialized:
  "initializeStudentProgress exampleCourse emptyStore
     = (Inr \<lparr>studentCount = 1, totalRecords = 10\<rparr>, exampleStore)"
  by (simp add: initializeStudentProgress_def studentRecords_def Let_def example_defs
      emptyStore_def exampleStore_def extractAllIds_input_def sortSectionsOf_def sortItemsOf_def
      getNextData_def moduleNextOf_def sectionNextOf_def sectionItemNextOf_def or_null_def
      at_index_def upsertValue_def insertIfAbsent_def createMany_skipDuplicates_def
      upsertModuleNext_def upsertSectionNext_def upsertSectionItemNext_def)

lemma exampleStore_complete_I121:
  "updateSectionItemProgress ''c'' ''u'' [''I121''] True exampleStore
     = (Inr [\<lparr>upd_course = None, upd_modules = Some [''M1'', ''M2''],
              upd_sections = Some [''S12''], upd_sectionItems = Some [''I211'', ''I121'']\<rparr>],
        exampleStoreAfterI121)"
  by (simp add: cascade_defs exampleStore_def exampleStoreAfterI121_def)

subsection \<open>The loop over the item IDs\<close>

lemma sectionItemIdsLoop_append:
  "sectionItemIdsLoop cid student cascade (earlier @ later) updates s =
     (case sectionItemIdsLoop cid student cascade earlier updates s of
        (Inl e, s') \<Rightarrow> (Inl e, s')
      | (Inr updates', s') \<Rightarrow> sectionItemIdsLoop cid student cascade later updates' s')"
proof (induction earlier arbitrary: updates s)
  case Nil
  then show ?case by simp
next
  case (Cons sectionItemId earlier)
  show ?case
  proof (cases "completeSectionItem cid student cascade sectionItemId s")
    case (Pair outcome s1)
    then show ?thesis
      using Cons by (cases outcome) simp_all
  qed
qed

lemma failing_item_fails_the_call:
  assumes "updateSectionItemProgress cid student earlier cascade s = (Inr updates, s1)"
    and "completeSectionItem cid student cascade sectionItemId s1 = (Inl e, s2)"
  shows "updateSectionItemProgress cid student (earlier @ sectionItemId # later) cascade s = (Inl e, s2)"
  using assms by (simp add: updateSectionItemProgress_def sectionItemIdsLoop_append)

lemma gated_item:
  assumes "previousSectionItem sectionItemId s = Some previous"
    and "map_of (studentSectionItemProgress s) (student, sin_sectionItemId previous, cid) = Some progress"
    and "progress \<noteq> COMPLETE"
  shows "gated cid student sectionItemId s"
  using assms by (simp add: gated_def)

text \<open>
  C1: when the loop reaches an item whose predecessor (the first adjacency row pointing at
  the item) has a stored status other than COMPLETE, the call fails with the gating error,
  and the store is the one the earlier items of the list left: nothing is written for the
  item, nor for the items after it.
\<close>

theorem gating_violation_fails_the_call:
  assumes "updateSectionItemProgress cid student earlier cascade s = (Inr updates, s1)"
    and "previousSectionItem sectionItemId s1 = Some previous"
    and "map_of (studentSectionItemProgress s1) (student, sin_sectionItemId previous, cid)
           = Some progress"
    and "progress \<noteq> COMPLETE"
  shows "updateSectionItemProgress cid student (earlier @ sectionItemId # later) cascade s
           = (Inl GatingViolation, s1)"
proof -
  have "gated cid student sectionItemId s1"
    using assms(2-4) by (rule gated_item)
  then have "completeSectionItem cid student cascade sectionItemId s1 = (Inl GatingViolation, s1)"
    by (simp add: completeSectionItem_def)
  with assms(1) show ?thesis
    by (rule failing_item_fails_the_call)
qed

theorem gating_violation_fails_the_call_witness:
  "updateSectionItemProgress ''c'' ''u'' [''I121''] True exampleStore
     = (Inr [\<lparr>upd_course = None, upd_modules = Some [''M1'', ''M2''],
              upd_sections = Some [''S12''], upd_sectionItems = Some [''I211'', ''I121'']\<rparr>],
        exampleStoreAfterI121)
   \<and> previousSectionItem ''I112'' exampleStoreAfterI121
     = Some \<lparr>sin_sectionItemId = ''I111'', sin_nextSectionItemId = Some ''I112'',
             sin_sectionId = ''S11''\<rparr>
   \<and> map_of (studentSectionItemProgress exampleStoreAfterI121) (''u'', ''I111'', ''c'')
     = Some IN_PROGRESS
   \<and> IN_PROGRESS \<noteq> COMPLETE
   \<and> updateSectionItemProgress ''c'' ''u'' ([''I121''] @ ''I112'' # [''I211'']) True exampleStore
     = (Inl GatingViolation, exampleStoreAfterI121)"
proof -
  have h2: "previousSectionItem ''I112'' exampleStoreAfterI121
     = Some \<lparr>sin_sectionItemId = ''I111'', sin_nextSectionItemId = Some ''I112'',
             sin_sectionId = ''S11''\<rparr>"
    by (simp add: previousSectionItem_def exampleStoreAfterI121_def exampleStore_def)
  have h3: "map_of (studentSectionItemProgress exampleStoreAfterI121)
              (''u'', sin_sectionItemId \<lparr>sin_sectionItemId = ''I111'',
                 sin_nextSectionItemId = Some ''I112'', sin_sectionId = ''S11''\<rparr>, ''c'')
     = Some IN_PROGRESS"
    by (simp add: exampleStoreAfterI121_def exampleStore_def)
  have h4: "IN_PROGRESS \<noteq> COMPLETE" by simp
  show ?thesis
    using gating_violation_fails_the_call [OF exampleStore_complete_I121 h2 h3 h4, of "[''I211'']"]
      exampleStore_complete_I121 h2 h3
    by simp
qed

subsection \<open>What the cascade reports\<close>

lemma module_escalation_replaces_sections:
  assumes "repo_updateSectionProgress cid student sectionId COMPLETE s = Inr s1"
    and "repo_getSectionDetails cid student sectionId s1 = Some sectionDetails"
    and "or_null (sn_nextSectionId sectionDetails) = None"
    and "updateModuleProgress cid student (sn_moduleId sectionDetails) True s1 = (Inr moduleResult, s2)"
  shows "updateSectionProgress cid student sectionId True s
           = (Inr (moduleResult\<lparr>upd_sections := Some [sectionId]\<rparr>), s2)"
  using assms by (simp add: updateSectionProgress_def andThen_def)

text \<open>
  C2, at the failing input: \<open>I121\<close> is the last item of the last section of \<open>M1\<close>, and
  \<open>M2\<close> follows. The module cascade marks \<open>M2\<close>, its first section \<open>S21\<close> and that
  section's first item \<open>I211\<close> IN_PROGRESS, and the update returned lists \<open>S12\<close> alone
  under \<open>sections\<close>.
\<close>

theorem module_escalation_drops_next_section:
  "fst (updateSectionItemProgress ''c'' ''u'' [''I121''] True exampleStore)
     = Inr [\<lparr>upd_course = None, upd_modules = Some [''M1'', ''M2''],
             upd_sections = Some [''S12''], upd_sectionItems = Some [''I211'', ''I121'']\<rparr>]
   \<and> map_of (studentSectionProgress
               (snd (updateSectionItemProgress ''c'' ''u'' [''I121''] True exampleStore)))
        (''u'', ''S21'', ''c'') = Some IN_PROGRESS
   \<and> map_of (studentSectionProgress exampleStore) (''u'', ''S21'', ''c'') = Some INCOMPLETE"
  by (simp add: cascade_defs exampleStore_def)

subsection \<open>Missing records during the cascade\<close>

lemma markProgress_error: "markProgress k status t = Inl e \<Longrightarrow> e = NotFound"
  by (simp add: markProgress_def split: if_splits)

lemma repo_update_error:
  "repo_updateSectionItemProgress cid student x status s = Inl e \<Longrightarrow> e = NotFound"
  "repo_updateSectionProgress cid student x status s = Inl e \<Longrightarrow> e = NotFound"
  "repo_updateModuleProgress cid student x status s = Inl e \<Longrightarrow> e = NotFound"
  "repo_updateCourseProgress cid student s = Inl e \<Longrightarrow> e = NotFound"
  by (auto simp: repo_updateSectionItemProgress_def repo_updateSectionProgress_def
      repo_updateModuleProgress_def repo_updateCourseProgress_def
      split: sum.splits dest: markProgress_error)

lemma markProgress_keys: "markProgress k status t = Inr t' \<Longrightarrow> fst ` set t' = fst ` set t"
  by (force simp: markProgress_def split: if_splits)

lemma repo_update_skeleton:
  "repo_updateSectionItemProgress cid student x status s = Inr s' \<Longrightarrow> skeleton s' = skeleton s"
  "repo_updateSectionProgress cid student x status s = Inr s' \<Longrightarrow> skeleton s' = skeleton s"
  "repo_updateModuleProgress cid student x status s = Inr s' \<Longrightarrow> skeleton s' = skeleton s"
  "repo_updateCourseProgress cid student s = Inr s' \<Longrightarrow> skeleton s' = skeleton s"
  by (clarsimp simp: repo_updateSectionItemProgress_def repo_updateSectionProgress_def
      repo_updateModuleProgress_def repo_updateCourseProgress_def skeleton_def
      split: sum.splits dest!: markProgress_keys)+

lemma row_via_skeleton:
  "(map_of (studentCourseProgress s) k = None) = (k \<notin> fst (snd (skeleton s)))"
  "(map_of (studentModuleProgress s) k3 = None) = (k3 \<notin> fst (snd (snd (skeleton s))))"
  "(map_of (studentSectionProgress s) k3 = None) = (k3 \<notin> fst (snd (snd (snd (skeleton s)))))"
  "(map_of (studentSectionItemProgress s) k3 = None) = (k3 \<notin> snd (snd (snd (snd (skeleton s)))))"
  by (simp_all add: skeleton_def map_of_eq_None_iff)

lemma details_via_skeleton:
  "repo_getModuleDetails cid student x s = find (\<lambda>r. mn_moduleId r = x) (fst (fst (skeleton s)))"
  "repo_getSectionDetails cid student x s = find (\<lambda>r. sn_sectionId r = x) (fst (snd (fst (skeleton s))))"
  "repo_getSectionItemDetails cid student x s
     = find (\<lambda>r. sin_sectionItemId r = x) (snd (snd (fst (skeleton s))))"
  by (simp_all add: skeleton_def repo_getModuleDetails_def repo_getSectionDetails_def
      repo_getSectionItemDetails_def)

lemma repo_update_succeeds:
  "(\<exists>s'. repo_updateSectionItemProgress cid student x status s = Inr s')
     = (map_of (studentSectionItemProgress s) (student, x, cid) \<noteq> None)"
  "(\<exists>s'. repo_updateSectionProgress cid student x status s = Inr s')
     = (map_of (studentSectionProgress s) (student, x, cid) \<noteq> None)"
  "(\<exists>s'. repo_updateModuleProgress cid student x status s = Inr s')
     = (map_of (studentModuleProgress s) (student, x, cid) \<noteq> None)"
  "(\<exists>s'. repo_updateCourseProgress cid student s = Inr s')
     = (map_of (studentCourseProgress s) (student, cid) \<noteq> None)"
  by (auto simp: repo_updateSectionItemProgress_def repo_updateSectionProgress_def
      repo_updateModuleProgress_def repo_updateCourseProgress_def markProgress_def)

lemma andThen_Inr:
  assumes "andThen written s continue = (Inr u, s')"
  obtains s1 where "written = Inr s1" and "continue s1 = (Inr u, s')"
  using assms by (cases written) (simp_all add: andThen_def)

lemma andThen_Inl:
  assumes "andThen written s continue = (Inl e, s')"
    and "\<And>e'. written = Inl e' \<Longrightarrow> e' = NotFound"
    and "\<And>s1. written = Inr s1 \<Longrightarrow> continue s1 = (Inl e, s') \<Longrightarrow> e = NotFound"
  shows "e = NotFound"
  using assms by (cases written) (simp_all add: andThen_def)

lemma updateCourseProgress_error:
  "updateCourseProgress cid student s = (Inl e, s') \<Longrightarrow> e = NotFound"
  by (auto simp: updateCourseProgress_def andThen_def split: sum.splits dest: repo_update_error)

lemma updateModuleProgress_error:
  "updateModuleProgress cid student moduleId cascade s = (Inl e, s') \<Longrightarrow> e = NotFound"
  by (auto simp: updateModuleProgress_def andThen_def
      split: sum.splits option.splits if_splits prod.splits
      dest: repo_update_error updateCourseProgress_error)

lemma updateSectionProgress_error:
  "updateSectionProgress cid student sectionId cascade s = (Inl e, s') \<Longrightarrow> e = NotFound"
  by (auto simp: updateSectionProgress_def andThen_def
      split: sum.splits option.splits if_splits prod.splits
      dest: repo_update_error updateModuleProgress_error)

lemma completeSectionItem_error:
  "completeSectionItem cid student cascade sectionItemId s = (Inl e, s') \<Longrightarrow>
     e = (if gated cid student sectionItemId s then GatingViolation else NotFound)"
  by (auto simp: completeSectionItem_def andThen_def
      split: sum.splits option.splits if_splits prod.splits
      dest: repo_update_error updateSectionProgress_error)

lemma updateCourseProgress_skeleton:
  "updateCourseProgress cid student s = (r, s') \<Longrightarrow> skeleton s' = skeleton s"
  by (auto simp: updateCourseProgress_def andThen_def split: sum.splits
      dest: repo_update_skeleton)

lemma updateCourseProgress_fails:
  "isl (fst (updateCourseProgress cid student s))
     = (map_of (studentCourseProgress s) (student, cid) = None)"
  using repo_update_succeeds(4) [of cid student s]
  by (auto simp: updateCourseProgress_def andThen_def split: sum.splits)

lemma updateModuleProgress_skeleton:
  "updateModuleProgress cid student moduleId cascade s = (r, s') \<Longrightarrow> skeleton s' = skeleton s"
  by (auto simp: updateModuleProgress_def andThen_def
      split: sum.splits option.splits if_splits prod.splits
      dest!: repo_update_skeleton updateCourseProgress_skeleton)

lemma repo_update_Inl:
  "repo_updateSectionItemProgress cid student x status s = Inl e
     \<Longrightarrow> (student, x, cid) \<notin> snd (snd (snd (snd (skeleton s))))"
  "repo_updateSectionProgress cid student x status s = Inl e
     \<Longrightarrow> (student, x, cid) \<notin> fst (snd (snd (snd (skeleton s))))"
  "repo_updateModuleProgress cid student x status s = Inl e
     \<Longrightarrow> (student, x, cid) \<notin> fst (snd (snd (skeleton s)))"
  "repo_updateCourseProgress cid student s = Inl e
     \<Longrightarrow> (student, cid) \<notin> fst (snd (skeleton s))"
  using repo_update_succeeds(1-3) [of cid student x status s] repo_update_succeeds(4) [of cid student s]
  by (auto simp: row_via_skeleton)

lemma repo_update_Inr:
  "repo_updateSectionItemProgress cid student x status s = Inr s'
     \<Longrightarrow> (student, x, cid) \<in> snd (snd (snd (snd (skeleton s)))) \<and> skeleton s' = skeleton s"
  "repo_updateSectionProgress cid student x status s = Inr s'
     \<Longrightarrow> (student, x, cid) \<in> fst (snd (snd (snd (skeleton s)))) \<and> skeleton s' = skeleton s"
  "repo_updateModuleProgress cid student x status s = Inr s'
     \<Longrightarrow> (student, x, cid) \<in> fst (snd (snd (skeleton s))) \<and> skeleton s' = skeleton s"
  "repo_updateCourseProgress cid student s = Inr s'
     \<Longrightarrow> (student, cid) \<in> fst (snd (skeleton s)) \<and> skeleton s' = skeleton s"
  using repo_update_succeeds(1-3) [of cid student x status s] repo_update_succeeds(4) [of cid student s]
  by (auto simp: row_via_skeleton repo_update_skeleton)

lemma updateModuleProgress_fails:
  "isl (fst (updateModuleProgress cid student moduleId True s))
     = moduleRecordMissing cid student moduleId s"
  by (auto simp: updateModuleProgress_def updateCourseProgress_def andThen_def
      moduleRecordMissing_def row_via_skeleton details_via_skeleton
      split: sum.splits option.splits prod.splits
      dest!: repo_update_Inl repo_update_Inr)

lemma recordMissing_skeleton:
  assumes "skeleton s' = skeleton s"
  shows "moduleRecordMissing cid student x s' = moduleRecordMissing cid student x s"
    and "sectionRecordMissing cid student x s' = sectionRecordMissing cid student x s"
proof -
  show m: "moduleRecordMissing cid student y s' = moduleRecordMissing cid student y s" for y
    by (simp add: moduleRecordMissing_def row_via_skeleton details_via_skeleton assms
        cong: option.case_cong)
  show "sectionRecordMissing cid student x s' = sectionRecordMissing cid student x s"
    by (simp add: sectionRecordMissing_def row_via_skeleton details_via_skeleton assms m
        cong: option.case_cong)
qed

lemma isl_fst_case:
  "isl (fst (case p of (Inl e, s2) \<Rightarrow> (Inl e, s2) | (Inr u, s2) \<Rightarrow> (Inr (f u), s2))) = isl (fst p)"
  by (cases p) (auto split: sum.splits)

lemma updateSectionProgress_fails:
  "isl (fst (updateSectionProgress cid student sectionId True s))
     = sectionRecordMissing cid student sectionId s"
proof (cases "repo_updateSectionProgress cid student sectionId COMPLETE s")
  case (Inl e)
  then show ?thesis
    using repo_update_succeeds(2) [of cid student sectionId COMPLETE s]
    by (simp add: updateSectionProgress_def andThen_def sectionRecordMissing_def)
next
  case (Inr s1)
  then have row: "map_of (studentSectionProgress s) (student, sectionId, cid) \<noteq> None"
    and sk: "skeleton s1 = skeleton s"
    using repo_update_succeeds(2) [of cid student sectionId COMPLETE s]
    by (auto dest: repo_update_skeleton)
  have details: "repo_getSectionDetails cid student y s1 = repo_getSectionDetails cid student y s" for y
    by (simp add: details_via_skeleton sk)
  show ?thesis
  proof (cases "repo_getSectionDetails cid student sectionId s")
    case None
    then show ?thesis
      using Inr by (simp add: updateSectionProgress_def andThen_def sectionRecordMissing_def details)
  next
    case (Some sectionDetails)
    show ?thesis
    proof (cases "or_null (sn_nextSectionId sectionDetails)")
      case None
      have "isl (fst (updateSectionProgress cid student sectionId True s))
              = isl (fst (updateModuleProgress cid student (sn_moduleId sectionDetails) True s1))"
        using Inr Some None
        by (simp add: updateSectionProgress_def andThen_def details isl_fst_case)
      also have "\<dots> = moduleRecordMissing cid student (sn_moduleId sectionDetails) s"
        by (simp add: updateModuleProgress_fails recordMissing_skeleton(1) [OF sk])
      finally show ?thesis
        using row Some None by (auto simp: sectionRecordMissing_def)
    next
      case (Some nextSectionId)
      show ?thesis
        using Inr row \<open>repo_getSectionDetails cid student sectionId s = Some sectionDetails\<close> Some sk
        by (auto simp: updateSectionProgress_def andThen_def sectionRecordMissing_def
            row_via_skeleton details_via_skeleton
            split: sum.splits option.splits
            dest!: repo_update_Inl repo_update_Inr)
    qed
  qed
qed

lemma updateSectionProgress_skeleton:
  "updateSectionProgress cid student sectionId cascade s = (r, s') \<Longrightarrow> skeleton s' = skeleton s"
  by (auto simp: updateSectionProgress_def andThen_def
      split: sum.splits option.splits if_splits prod.splits
      dest!: repo_update_skeleton updateModuleProgress_skeleton)

lemma completeSectionItem_fails:
  "isl (fst (completeSectionItem cid student cascade sectionItemId s))
     = (gated cid student sectionItemId s \<or> itemRecordMissing cid student cascade sectionItemId s)"
proof (cases "gated cid student sectionItemId s")
  case True
  then show ?thesis by (simp add: completeSectionItem_def)
next
  case False
  show ?thesis
  proof (cases "repo_updateSectionItemProgress cid student sectionItemId COMPLETE s")
    case (Inl e)
    then show ?thesis
      using False repo_update_succeeds(1) [of cid student sectionItemId COMPLETE s]
      by (simp add: completeSectionItem_def andThen_def itemRecordMissing_def)
  next
    case (Inr s1)
    then have row: "map_of (studentSectionItemProgress s) (student, sectionItemId, cid) \<noteq> None"
      and sk: "skeleton s1 = skeleton s"
      using repo_update_succeeds(1) [of cid student sectionItemId COMPLETE s]
      by (auto dest: repo_update_skeleton)
    have details:
      "repo_getSectionItemDetails cid student y s1 = repo_getSectionItemDetails cid student y s" for y
      by (simp add: details_via_skeleton sk)
    show ?thesis
    proof (cases cascade)
      case False
      then show ?thesis
        using \<open>\<not> gated cid student sectionItemId s\<close> Inr row
        by (simp add: completeSectionItem_def andThen_def itemRecordMissing_def)
    next
      case True
      show ?thesis
      proof (cases "repo_getSectionItemDetails cid student sectionItemId s")
        case None
        then show ?thesis
          using False True Inr
          by (simp add: completeSectionItem_def andThen_def itemRecordMissing_def details)
      next
        case (Some sectionItemDetails)
        show ?thesis
        proof (cases "or_null (sin_nextSectionItemId sectionItemDetails)")
          case None
          have "isl (fst (completeSectionItem cid student cascade sectionItemId s))
                  = isl (fst (updateSectionProgress cid student
                                (sin_sectionId sectionItemDetails) True s1))"
            using False True Inr Some None
            by (simp add: completeSectionItem_def andThen_def details isl_fst_case)
          also have "\<dots> = sectionRecordMissing cid student (sin_sectionId sectionItemDetails) s"
            by (simp add: updateSectionProgress_fails recordMissing_skeleton(2) [OF sk])
          finally show ?thesis
            using False True row Some None by (auto simp: itemRecordMissing_def)
        next
          case (Some nextSectionItemId)
          show ?thesis
            using False True Inr row
              \<open>repo_getSectionItemDetails cid student sectionItemId s = Some sectionItemDetails\<close>
              Some sk repo_update_succeeds(1) [of cid student nextSectionItemId IN_PROGRESS s1]
            by (auto simp: completeSectionItem_def andThen_def itemRecordMissing_def
                row_via_skeleton details_via_skeleton
                split: sum.splits)
        qed
      qed
    qed
  qed
qed

lemma ungated_without_predecessor_row:
  assumes "previousSectionItem sectionItemId s = Some previous"
    and "map_of (studentSectionItemProgress s) (student, sin_sectionItemId previous, cid) = None"
  shows "\<not> gated cid student sectionItemId s"
  using assms by (simp add: gated_def)

text \<open>
  C7 (amended): let the loop reach an item. When the item has a predecessor whose progress
  row is missing, the gating check passes. When the item is not gated and a record its
  processing consults is missing (the progress row of an entity it marks, or the details
  record of the item, its section, its module, the next section, the next module or the next
  module's first section), the call fails with the not-found error. When the item is not
  gated and none of these is missing, the item is processed.
\<close>

theorem missing_records_during_cascade:
  assumes "updateSectionItemProgress cid student earlier cascade s0 = (Inr updates, s)"
  shows "(previousSectionItem sectionItemId s = Some previous
            \<and> map_of (studentSectionItemProgress s) (student, sin_sectionItemId previous, cid) = None
          \<longrightarrow> \<not> gated cid student sectionItemId s)
       \<and> (\<not> gated cid student sectionItemId s
            \<and> itemRecordMissing cid student cascade sectionItemId s
          \<longrightarrow> fst (updateSectionItemProgress cid student (earlier @ sectionItemId # later) cascade s0)
                = Inl NotFound)
       \<and> (\<not> gated cid student sectionItemId s
            \<and> \<not> itemRecordMissing cid student cascade sectionItemId s
          \<longrightarrow> (\<exists>u s1. completeSectionItem cid student cascade sectionItemId s = (Inr u, s1)))"
proof (intro conjI impI)
  assume "previousSectionItem sectionItemId s = Some previous
            \<and> map_of (studentSectionItemProgress s) (student, sin_sectionItemId previous, cid) = None"
  then show "\<not> gated cid student sectionItemId s"
    by (simp add: ungated_without_predecessor_row)
next
  assume h: "\<not> gated cid student sectionItemId s
               \<and> itemRecordMissing cid student cascade sectionItemId s"
  obtain r s2 where step: "completeSectionItem cid student cascade sectionItemId s = (r, s2)"
    by (cases "completeSectionItem cid student cascade sectionItemId s")
  have "isl r"
    using completeSectionItem_fails [of cid student cascade sectionItemId s] h step by simp
  then obtain e where e: "r = Inl e" by (cases r) simp_all
  have "e = NotFound"
    using completeSectionItem_error [of cid student cascade sectionItemId s e s2] h step e by simp
  then show "fst (updateSectionItemProgress cid student (earlier @ sectionItemId # later) cascade s0)
               = Inl NotFound"
    using failing_item_fails_the_call [OF assms, of sectionItemId e s2 later] step e by simp
next
  assume h: "\<not> gated cid student sectionItemId s
               \<and> \<not> itemRecordMissing cid student cascade sectionItemId s"
  obtain r s2 where step: "completeSectionItem cid student cascade sectionItemId s = (r, s2)"
    by (cases "completeSectionItem cid student cascade sectionItemId s")
  have "\<not> isl r"
    using completeSectionItem_fails [of cid student cascade sectionItemId s] h step by simp
  then obtain u where "r = Inr u" by (cases r) simp_all
  then show "\<exists>u s1. completeSectionItem cid student cascade sectionItemId s = (Inr u, s1)"
    using step by blast
qed

theorem missing_records_during_cascade_witness:
  "updateSectionItemProgress ''c'' ''u'' [] True exampleStoreWithoutI111
     = (Inr [], exampleStoreWithoutI111)
   \<and> previousSectionItem ''I112'' exampleStoreWithoutI111
     = Some \<lparr>sin_sectionItemId = ''I111'', sin_nextSectionItemId = Some ''I112'',
             sin_sectionId = ''S11''\<rparr>
   \<and> map_of (studentSectionItemProgress exampleStoreWithoutI111) (''u'', ''I111'', ''c'') = None
   \<and> \<not> gated ''c'' ''u'' ''I112'' exampleStoreWithoutI111
   \<and> \<not> itemRecordMissing ''c'' ''u'' True ''I112'' exampleStoreWithoutI111
   \<and> (\<exists>u s1. completeSectionItem ''c'' ''u'' True ''I112'' exampleStoreWithoutI111 = (Inr u, s1))
   \<and> \<not> gated ''c'' ''u'' ''I111'' exampleStoreWithoutI111
   \<and> itemRecordMissing ''c'' ''u'' True ''I111'' exampleStoreWithoutI111
   \<and> fst (updateSectionItemProgress ''c'' ''u'' ([] @ ''I111'' # [''I112'']) True
            exampleStoreWithoutI111) = Inl NotFound"
proof -
  have h0: "updateSectionItemProgress ''c'' ''u'' [] True exampleStoreWithoutI111
              = (Inr [], exampleStoreWithoutI111)"
    by (simp add: updateSectionItemProgress_def)
  have g2: "\<not> gated ''c'' ''u'' ''I112'' exampleStoreWithoutI111"
    and g1: "\<not> gated ''c'' ''u'' ''I111'' exampleStoreWithoutI111"
    by (simp_all add: gated_def previousSectionItem_def exampleStoreWithoutI111_def exampleStore_def)
  have m2: "\<not> itemRecordMissing ''c'' ''u'' True ''I112'' exampleStoreWithoutI111"
    and m1: "itemRecordMissing ''c'' ''u'' True ''I111'' exampleStoreWithoutI111"
    by (simp_all add: itemRecordMissing_def sectionRecordMissing_def moduleRecordMissing_def
        repo_getSectionItemDetails_def repo_getSectionDetails_def repo_getModuleDetails_def
        or_null_def exampleStoreWithoutI111_def exampleStore_def)
  have p: "previousSectionItem ''I112'' exampleStoreWithoutI111
     = Some \<lparr>sin_sectionItemId = ''I111'', sin_nextSectionItemId = Some ''I112'',
             sin_sectionId = ''S11''\<rparr>"
    and r: "map_of (studentSectionItemProgress exampleStoreWithoutI111) (''u'', ''I111'', ''c'') = None"
    by (simp_all add: previousSectionItem_def exampleStoreWithoutI111_def exampleStore_def)
  show ?thesis
    using missing_records_during_cascade [OF h0, of "''I112''" _ "[]"]
      missing_records_during_cascade [OF h0, of "''I111''" _ "[''I112'']"]
      h0 g1 g2 m1 m2 p r
    by simp
qed

text \<open>
  C7 as stated fails where the predecessor's progress row is the missing record: \<open>I111\<close>
  precedes \<open>I112\<close> and has no progress row, and completing \<open>I112\<close> succeeds.
\<close>

theorem missing_predecessor_row_counterexample:
  "previousSectionItem ''I112'' exampleStoreWithoutI111
     = Some \<lparr>sin_sectionItemId = ''I111'', sin_nextSectionItemId = Some ''I112'',
             sin_sectionId = ''S11''\<rparr>
   \<and> map_of (studentSectionItemProgress exampleStoreWithoutI111) (''u'', ''I111'', ''c'') = None
   \<and> fst (updateSectionItemProgress ''c'' ''u'' [''I112''] True exampleStoreWithoutI111)
     = Inr [\<lparr>upd_course = None, upd_modules = None, upd_sections = Some [''S11'', ''S12''],
             upd_sectionItems = Some [''I121'', ''I112'']\<rparr>]
   \<and> fst (updateSectionItemProgress ''c'' ''u'' [''I112''] True exampleStoreWithoutI111)
     \<noteq> Inl NotFound"
  by (simp add: cascade_defs exampleStoreWithoutI111_def exampleStore_def)

subsection \<open>Running the initialisation again\<close>

lemma insertIfAbsent_keys: "fst ` set (insertIfAbsent kv t) = insert (fst kv) (fst ` set t)"
  by (auto simp: insertIfAbsent_def map_of_eq_None_iff)

lemma insertIfAbsent_present: "fst kv \<in> fst ` set t \<Longrightarrow> insertIfAbsent kv t = t"
  by (simp add: insertIfAbsent_def map_of_eq_None_iff)

lemma createMany_keys:
  "fst ` set (createMany_skipDuplicates rows t) = fst ` set t \<union> fst ` set rows"
  unfolding createMany_skipDuplicates_def
  by (induction rows arbitrary: t) (auto simp: insertIfAbsent_keys)

lemma createMany_present:
  "fst ` set rows \<subseteq> fst ` set t \<Longrightarrow> createMany_skipDuplicates rows t = t"
  unfolding createMany_skipDuplicates_def
  by (induction rows arbitrary: t) (auto simp: insertIfAbsent_present)

lemma map_of_overwrite:
  "map_of (map (\<lambda>(a, b). if a = k then (a, v) else (a, b)) t) k'
     = (if k' = k then map_option (\<lambda>_. v) (map_of t k) else map_of t k')"
  by (induction t) auto

lemma upsertValue_lookup:
  "map_of (upsertValue k v t) k' = (if k' = k then Some v else map_of t k')"
proof (cases "map_of t k")
  case None
  then show ?thesis by (auto simp: upsertValue_def map_add_def split: option.splits)
next
  case (Some w)
  then show ?thesis by (simp add: upsertValue_def map_of_overwrite)
qed

lemma run_progressKeys:
  assumes "run operation s = Inr s'"
  shows "fst ` set (studentCourseProgress s) \<subseteq> fst ` set (studentCourseProgress s')"
    and "fst ` set (studentModuleProgress s) \<subseteq> fst ` set (studentModuleProgress s')"
    and "fst ` set (studentSectionProgress s) \<subseteq> fst ` set (studentSectionProgress s')"
    and "fst ` set (studentSectionItemProgress s) \<subseteq> fst ` set (studentSectionItemProgress s')"
proof -
  have "fst ` set (studentCourseProgress s) \<subseteq> fst ` set (studentCourseProgress s')
      \<and> fst ` set (studentModuleProgress s) \<subseteq> fst ` set (studentModuleProgress s')
      \<and> fst ` set (studentSectionProgress s) \<subseteq> fst ` set (studentSectionProgress s')
      \<and> fst ` set (studentSectionItemProgress s) \<subseteq> fst ` set (studentSectionItemProgress s')"
    using assms
    by (cases operation) (force simp: insertIfAbsent_keys createMany_keys split: sum.splits)+
  then show "fst ` set (studentCourseProgress s) \<subseteq> fst ` set (studentCourseProgress s')"
    and "fst ` set (studentModuleProgress s) \<subseteq> fst ` set (studentModuleProgress s')"
    and "fst ` set (studentSectionProgress s) \<subseteq> fst ` set (studentSectionProgress s')"
    and "fst ` set (studentSectionItemProgress s) \<subseteq> fst ` set (studentSectionItemProgress s')"
    by simp_all
qed

lemma run_covered:
  assumes "run operation s = Inr s'"
  shows "covered operation s'"
  using assms
  by (cases operation) (force simp: insertIfAbsent_keys createMany_keys split: sum.splits)+

lemma covered_mono:
  assumes "covered operation s"
    and "fst ` set (studentCourseProgress s) \<subseteq> fst ` set (studentCourseProgress s')"
    and "fst ` set (studentModuleProgress s) \<subseteq> fst ` set (studentModuleProgress s')"
    and "fst ` set (studentSectionProgress s) \<subseteq> fst ` set (studentSectionProgress s')"
    and "fst ` set (studentSectionItemProgress s) \<subseteq> fst ` set (studentSectionItemProgress s')"
  shows "covered operation s'"
  using assms by (cases operation) (simp_all, blast+)

lemma run_covered_same:
  assumes "covered operation s" and "run operation s = Inr s'"
  shows "studentCourseProgress s' = studentCourseProgress s"
    and "studentModuleProgress s' = studentModuleProgress s"
    and "studentSectionProgress s' = studentSectionProgress s"
    and "studentSectionItemProgress s' = studentSectionItemProgress s"
proof -
  have "studentCourseProgress s' = studentCourseProgress s
      \<and> studentModuleProgress s' = studentModuleProgress s
      \<and> studentSectionProgress s' = studentSectionProgress s
      \<and> studentSectionItemProgress s' = studentSectionItemProgress s"
    using assms
    by (cases operation) (force simp: insertIfAbsent_present createMany_present split: sum.splits)+
  then show "studentCourseProgress s' = studentCourseProgress s"
    and "studentModuleProgress s' = studentModuleProgress s"
    and "studentSectionProgress s' = studentSectionProgress s"
    and "studentSectionItemProgress s' = studentSectionItemProgress s"
    by simp_all
qed

lemma transaction_progressKeys:
  assumes "transaction operations s = Inr s'"
  shows "fst ` set (studentCourseProgress s) \<subseteq> fst ` set (studentCourseProgress s')
       \<and> fst ` set (studentModuleProgress s) \<subseteq> fst ` set (studentModuleProgress s')
       \<and> fst ` set (studentSectionProgress s) \<subseteq> fst ` set (studentSectionProgress s')
       \<and> fst ` set (studentSectionItemProgress s) \<subseteq> fst ` set (studentSectionItemProgress s')"
  using assms
proof (induction operations arbitrary: s)
  case Nil
  then show ?case by simp
next
  case (Cons operation operations)
  then obtain s1 where r: "run operation s = Inr s1" and t: "transaction operations s1 = Inr s'"
    by (auto split: sum.splits)
  note step = run_progressKeys [OF r] and rest = Cons.IH [OF t]
  show ?case
  proof (intro conjI)
    show "fst ` set (studentCourseProgress s) \<subseteq> fst ` set (studentCourseProgress s')"
      by (rule order_trans [OF step(1)]) (simp add: rest)
    show "fst ` set (studentModuleProgress s) \<subseteq> fst ` set (studentModuleProgress s')"
      by (rule order_trans [OF step(2)]) (simp add: rest)
    show "fst ` set (studentSectionProgress s) \<subseteq> fst ` set (studentSectionProgress s')"
      by (rule order_trans [OF step(3)]) (simp add: rest)
    show "fst ` set (studentSectionItemProgress s) \<subseteq> fst ` set (studentSectionItemProgress s')"
      by (rule order_trans [OF step(4)]) (simp add: rest)
  qed
qed

lemma transaction_covered:
  assumes "transaction operations s = Inr s'"
  shows "list_all (\<lambda>operation. covered operation s') operations"
  using assms
proof (induction operations arbitrary: s)
  case Nil
  then show ?case by simp
next
  case (Cons operation operations)
  then obtain s1 where r: "run operation s = Inr s1" and t: "transaction operations s1 = Inr s'"
    by (auto split: sum.splits)
  note keys = transaction_progressKeys [OF t]
  have "covered operation s'"
    by (rule covered_mono [OF run_covered [OF r]]) (simp_all add: keys)
  then show ?case
    using Cons.IH [OF t] by simp
qed

lemma covered_same:
  assumes "studentCourseProgress s' = studentCourseProgress s"
    and "studentModuleProgress s' = studentModuleProgress s"
    and "studentSectionProgress s' = studentSectionProgress s"
    and "studentSectionItemProgress s' = studentSectionItemProgress s"
  shows "covered operation s' = covered operation s"
  by (cases operation) (simp_all add: assms)

lemma transaction_covered_same:
  assumes "list_all (\<lambda>operation. covered operation s) operations"
    and "transaction operations s = Inr s'"
  shows "studentCourseProgress s' = studentCourseProgress s
       \<and> studentModuleProgress s' = studentModuleProgress s
       \<and> studentSectionProgress s' = studentSectionProgress s
       \<and> studentSectionItemProgress s' = studentSectionItemProgress s"
  using assms
proof (induction operations arbitrary: s)
  case Nil
  then show ?case by simp
next
  case (Cons operation operations)
  then obtain s1 where r: "run operation s = Inr s1" and t: "transaction operations s1 = Inr s'"
    by (auto split: sum.splits)
  have c: "covered operation s" and cs: "list_all (\<lambda>operation. covered operation s) operations"
    using Cons.prems(1) by simp_all
  note same = run_covered_same [OF c r]
  have "covered x s1 = covered x s" for x
    by (rule covered_same) (rule same)+
  then have "list_all (\<lambda>operation. covered operation s1) operations"
    using cs by simp
  from Cons.IH [OF this t] show ?case
    by (simp add: same)
qed

lemma keys_sectionItemLoop:
  "fst ` set (sectionItemLoop cid student sectionProgress first items)
     = (\<lambda>i. (student, item_sectionItemId i, cid)) ` set items"
  by (induction items arbitrary: first) auto

lemma keys_sectionLoop:
  "fst ` set (fst (sectionLoop cid student moduleProgress first sections))
     = (\<lambda>sec. (student, sec_sectionId sec, cid)) ` set sections"
  "fst ` set (snd (sectionLoop cid student moduleProgress first sections))
     = (\<lambda>i. (student, item_sectionItemId i, cid)) ` (\<Union>sec\<in>set sections. set (sec_sectionItems sec))"
  by (induction sections arbitrary: first)
     (simp_all add: sectionLoop_Cons keys_sectionItemLoop image_Un del: sectionLoop.simps(2))

lemma keys_moduleLoop:
  "fst ` set (fst (moduleLoop s cid student previous ms))
     = (\<lambda>m. (student, mod_moduleId m, cid)) ` set ms"
  "fst ` set (fst (snd (moduleLoop s cid student previous ms)))
     = (\<lambda>sec. (student, sec_sectionId sec, cid)) ` (\<Union>m\<in>set ms. set (mod_sections m))"
  "fst ` set (snd (snd (moduleLoop s cid student previous ms)))
     = (\<lambda>i. (student, item_sectionItemId i, cid))
         ` (\<Union>m\<in>set ms. \<Union>sec\<in>set (mod_sections m). set (sec_sectionItems sec))"
  by (induction ms arbitrary: previous)
     (simp_all add: moduleLoop_Cons keys_sectionLoop image_Un del: moduleLoop.simps(2))

lemma covered_adjacency:
  "list_all (\<lambda>operation. covered operation s') (map UpsertModuleNext dms)"
  "list_all (\<lambda>operation. covered operation s') (map UpsertSectionNext dss)"
  "list_all (\<lambda>operation. covered operation s') (map UpsertSectionItemNext dis)"
  by (simp_all add: list_all_iff)

lemma covered_studentRecords:
  "list_all (\<lambda>operation. covered operation s') (fst (studentRecords s cd student))
     = progressRowsExist cd student s'"
  by (simp add: studentRecords_def Let_def split_beta keys_moduleLoop covered_adjacency
      progressRowsExist_def)

lemma covered_studentLoop:
  "list_all (\<lambda>operation. covered operation s') (fst (studentLoop s cd students (records, n)))
     = (list_all (\<lambda>operation. covered operation s') records
        \<and> list_all (\<lambda>student. progressRowsExist cd student s') students)"
proof (induction students arbitrary: records n)
  case Nil
  then show ?case by simp
next
  case (Cons student students)
  show ?case
    using Cons [of "records @ fst (studentRecords s cd student)" "n + snd (studentRecords s cd student)"]
    by (auto simp: split_beta covered_studentRecords)
qed

lemma progressRowsExist_mono:
  assumes "progressRowsExist cd student s"
    and "fst ` set (studentCourseProgress s) \<subseteq> fst ` set (studentCourseProgress s')"
    and "fst ` set (studentModuleProgress s) \<subseteq> fst ` set (studentModuleProgress s')"
    and "fst ` set (studentSectionProgress s) \<subseteq> fst ` set (studentSectionProgress s')"
    and "fst ` set (studentSectionItemProgress s) \<subseteq> fst ` set (studentSectionItemProgress s')"
  shows "progressRowsExist cd student s'"
  unfolding progressRowsExist_def
proof (intro conjI)
  show "(student, courseInstanceId cd) \<in> fst ` set (studentCourseProgress s')"
    by (rule subsetD [OF assms(2)]) (use assms(1) in \<open>simp add: progressRowsExist_def\<close>)
  show "(\<lambda>m. (student, mod_moduleId m, courseInstanceId cd)) ` set (modules cd)
          \<subseteq> fst ` set (studentModuleProgress s')"
    by (rule order_trans [OF _ assms(3)]) (use assms(1) in \<open>simp add: progressRowsExist_def\<close>)
  show "(\<lambda>sec. (student, sec_sectionId sec, courseInstanceId cd))
            ` (\<Union>m\<in>set (modules cd). set (mod_sections m))
          \<subseteq> fst ` set (studentSectionProgress s')"
    by (rule order_trans [OF _ assms(4)]) (use assms(1) in \<open>simp add: progressRowsExist_def\<close>)
  show "(\<lambda>i. (student, item_sectionItemId i, courseInstanceId cd))
            ` (\<Union>m\<in>set (modules cd). \<Union>sec\<in>set (mod_sections m). set (sec_sectionItems sec))
          \<subseteq> fst ` set (studentSectionItemProgress s')"
    by (rule order_trans [OF _ assms(5)]) (use assms(1) in \<open>simp add: progressRowsExist_def\<close>)
qed

lemma run_total_kept:
  assumes "run operation s = Inr s'" and "map_of (totalProgress s) k = Some 0"
  shows "map_of (totalProgress s') k = Some 0"
  using assms by (cases operation) (auto simp: upsertValue_lookup split: sum.splits)

lemma transaction_total_kept:
  assumes "transaction operations s = Inr s'" and "map_of (totalProgress s) k = Some 0"
  shows "map_of (totalProgress s') k = Some 0"
  using assms
proof (induction operations arbitrary: s)
  case Nil
  then show ?case by simp
next
  case (Cons operation operations)
  then obtain s1 where r: "run operation s = Inr s1" and t: "transaction operations s1 = Inr s'"
    by (auto split: sum.splits)
  show ?case
    by (rule Cons.IH [OF t]) (rule run_total_kept [OF r Cons.prems(2)])
qed

lemma transaction_total_reset:
  assumes "transaction operations s = Inr s'" and "UpsertTotalProgress k \<in> set operations"
  shows "map_of (totalProgress s') k = Some 0"
  using assms
proof (induction operations arbitrary: s)
  case Nil
  then show ?case by simp
next
  case (Cons operation operations)
  then obtain s1 where r: "run operation s = Inr s1" and t: "transaction operations s1 = Inr s'"
    by (auto split: sum.splits)
  show ?case
  proof (cases "operation = UpsertTotalProgress k")
    case True
    then have "map_of (totalProgress s1) k = Some 0"
      using r by (auto simp: upsertValue_lookup)
    then show ?thesis by (rule transaction_total_kept [OF t])
  next
    case False
    then have "UpsertTotalProgress k \<in> set operations"
      using Cons.prems(2) by simp
    then show ?thesis by (rule Cons.IH [OF t])
  qed
qed

lemma studentRecords_resets_total:
  "UpsertTotalProgress (student, courseInstanceId cd) \<in> set (fst (studentRecords s cd student))"
  by (simp add: studentRecords_def Let_def split_beta)

lemma studentLoop_records:
  "set (fst (studentLoop s cd students (records, n)))
     = set records \<union> (\<Union>student\<in>set students. set (fst (studentRecords s cd student)))"
proof (induction students arbitrary: records n)
  case Nil
  then show ?case by simp
next
  case (Cons student students)
  show ?case
    using Cons [of "records @ fst (studentRecords s cd student)" "n + snd (studentRecords s cd student)"]
    by (auto simp: split_beta)
qed

lemma studentLoop_resets_total:
  assumes "student \<in> set students"
  shows "UpsertTotalProgress (student, courseInstanceId cd)
           \<in> set (fst (studentLoop s cd students (records, n)))"
  using assms studentRecords_resets_total [of student cd s]
  by (auto simp: studentLoop_records)

lemma initializeStudentProgress_Inr:
  assumes "initializeStudentProgress cd s = (Inr r, s')"
  shows "transaction (fst (studentLoop s (extractAllIds_input cd) (studentIds cd) ([], 0))) s = Inr s'"
    and "r = \<lparr>studentCount = length (studentIds cd),
              totalRecords = snd (studentLoop s (extractAllIds_input cd) (studentIds cd) ([], 0))\<rparr>"
  using assms
  by (auto simp: initializeStudentProgress_def Let_def split_beta extractAllIds_input_def
      split: sum.splits)

lemma initializeStudentProgress_run:
  assumes "transaction (fst (studentLoop s (extractAllIds_input cd) (studentIds cd) ([], 0))) s = Inr s'"
  shows "initializeStudentProgress cd s
           = (Inr \<lparr>studentCount = length (studentIds cd),
                    totalRecords = snd (studentLoop s (extractAllIds_input cd) (studentIds cd) ([], 0))\<rparr>,
              s')"
  using assms
  by (simp add: initializeStudentProgress_def Let_def split_beta extractAllIds_input_def)

lemma initializeStudentProgress_sorted_input:
  "initializeStudentProgress (extractAllIds_input cd) s = initializeStudentProgress cd s"
proof -
  have "studentIds (extractAllIds_input cd) = studentIds cd"
    by (simp add: extractAllIds_input_def)
  then show ?thesis
    by (simp add: initializeStudentProgress_def Let_def extractAllIds_input_twice)
qed

text \<open>
  C6: after a run of \<open>initializeStudentProgress\<close> has succeeded, a second run with the same
  course data (as the caller built it, or as the first run left the caller's object), on
  the store the first run left or on any store that still has its progress rows (statuses
  and totals may have changed since), returns the same result, leaves the course, module,
  section and section item progress tables exactly as they are (no row is added, no status
  overwritten), and leaves \<open>TotalProgress\<close> at 0 for every listed student.
\<close>

theorem rerun_keeps_progress_rows:
  assumes "initializeStudentProgress cd s0 = (Inr r1, s1)"
    and "fst ` set (studentCourseProgress s1) \<subseteq> fst ` set (studentCourseProgress s)"
    and "fst ` set (studentModuleProgress s1) \<subseteq> fst ` set (studentModuleProgress s)"
    and "fst ` set (studentSectionProgress s1) \<subseteq> fst ` set (studentSectionProgress s)"
    and "fst ` set (studentSectionItemProgress s1) \<subseteq> fst ` set (studentSectionItemProgress s)"
  shows "\<exists>s2. initializeStudentProgress cd s = (Inr r1, s2)
           \<and> initializeStudentProgress (extractAllIds_input cd) s = (Inr r1, s2)
           \<and> studentCourseProgress s2 = studentCourseProgress s
           \<and> studentModuleProgress s2 = studentModuleProgress s
           \<and> studentSectionProgress s2 = studentSectionProgress s
           \<and> studentSectionItemProgress s2 = studentSectionItemProgress s
           \<and> (\<forall>student\<in>set (studentIds cd).
                 map_of (totalProgress s2) (student, courseInstanceId cd) = Some 0)"
proof -
  let ?cd = "extractAllIds_input cd"
  let ?first = "studentLoop s0 ?cd (studentIds cd) ([], 0)"
  let ?second = "studentLoop s ?cd (studentIds cd) ([], 0)"
  have cid: "courseInstanceId ?cd = courseInstanceId cd"
    by (simp add: extractAllIds_input_def)
  note first = initializeStudentProgress_Inr [OF assms(1)]
  \<comment> \<open>the second run is accepted, because the first was\<close>
  have "list_all accepted (fst ?first)"
    using first(1) transaction_refused [of "fst ?first" s0] by auto
  then have "list_all accepted (fst ?second)"
    by (simp add: accepted_studentLoop)
  then obtain s2 where second: "transaction (fst ?second) s = Inr s2"
    using transaction_accepted by blast
  \<comment> \<open>every row the second run would create exists already\<close>
  have "list_all (\<lambda>operation. covered operation s1) (fst ?first)"
    using first(1) by (rule transaction_covered)
  then have "list_all (\<lambda>student. progressRowsExist ?cd student s1) (studentIds cd)"
    by (simp add: covered_studentLoop)
  then have "list_all (\<lambda>student. progressRowsExist ?cd student s) (studentIds cd)"
    using progressRowsExist_mono [OF _ assms(2-5)] by (simp add: list_all_iff)
  then have "list_all (\<lambda>operation. covered operation s) (fst ?second)"
    by (simp add: covered_studentLoop)
  then have same: "studentCourseProgress s2 = studentCourseProgress s
       \<and> studentModuleProgress s2 = studentModuleProgress s
       \<and> studentSectionProgress s2 = studentSectionProgress s
       \<and> studentSectionItemProgress s2 = studentSectionItemProgress s"
    using second by (rule transaction_covered_same)
  have total: "map_of (totalProgress s2) (student, courseInstanceId cd) = Some 0"
    if "student \<in> set (studentIds cd)" for student
    using transaction_total_reset [OF second] studentLoop_resets_total [OF that, of ?cd s "[]" 0]
    by (simp add: cid)
  have "snd ?second = snd ?first"
    by (simp add: studentLoop_count)
  then have "initializeStudentProgress cd s = (Inr r1, s2)"
    using initializeStudentProgress_run [OF second] first(2) by simp
  then show ?thesis
    using same total by (simp add: initializeStudentProgress_sorted_input)
qed

theorem rerun_keeps_progress_rows_witness:
  "initializeStudentProgress exampleCourse emptyStore
     = (Inr \<lparr>studentCount = 1, totalRecords = 10\<rparr>, exampleStore)
   \<and> fst (initializeStudentProgress exampleCourse
            (exampleStoreAfterI121\<lparr>totalProgress := [((''u'', ''c''), 40)]\<rparr>))
     = Inr \<lparr>studentCount = 1, totalRecords = 10\<rparr>
   \<and> studentModuleProgress (snd (initializeStudentProgress exampleCourse
            (exampleStoreAfterI121\<lparr>totalProgress := [((''u'', ''c''), 40)]\<rparr>)))
     = [((''u'', ''M1'', ''c''), COMPLETE), ((''u'', ''M2'', ''c''), IN_PROGRESS)]
   \<and> studentCourseProgress (snd (initializeStudentProgress exampleCourse
            (exampleStoreAfterI121\<lparr>totalProgress := [((''u'', ''c''), 40)]\<rparr>)))
     = [((''u'', ''c''), IN_PROGRESS)]
   \<and> map_of (totalProgress (snd (initializeStudentProgress exampleCourse
            (exampleStoreAfterI121\<lparr>totalProgress := [((''u'', ''c''), 40)]\<rparr>))))
        (''u'', ''c'') = Some 0"
proof -
  let ?s = "exampleStoreAfterI121\<lparr>totalProgress := [((''u'', ''c''), 40)]\<rparr>"
  have k: "fst ` set (studentCourseProgress exampleStore) \<subseteq> fst ` set (studentCourseProgress ?s)"
    "fst ` set (studentModuleProgress exampleStore) \<subseteq> fst ` set (studentModuleProgress ?s)"
    "fst ` set (studentSectionProgress exampleStore) \<subseteq> fst ` set (studentSectionProgress ?s)"
    "fst ` set (studentSectionItemProgress exampleStore)
       \<subseteq> fst ` set (studentSectionItemProgress ?s)"
    by (simp_all add: exampleStore_def exampleStoreAfterI121_def)
  obtain s2 where "initializeStudentProgress exampleCourse ?s
                     = (Inr \<lparr>studentCount = 1, totalRecords = 10\<rparr>, s2)"
    and "studentCourseProgress s2 = studentCourseProgress ?s"
    and "studentModuleProgress s2 = studentModuleProgress ?s"
    and "map_of (totalProgress s2) (''u'', courseInstanceId exampleCourse) = Some 0"
    using rerun_keeps_progress_rows [OF exampleStore_initialized k]
    by (auto simp: exampleCourse_def)
  then show ?thesis
    using exampleStore_initialized
    by (simp add: exampleStoreAfterI121_def exampleStore_def exampleCourse_def)
qed

subsection \<open>Modules listed out of sequence order\<close>

text \<open>Sections and items are linked in sequence order, whatever the order of the input arrays.\<close>

lemma section_adjacency_in_sequence_order:
  "map sni_sectionId (sectionNextOf (sortSectionsOf m))
     = map sec_sectionId (sort_key sec_sequence (mod_sections m))"
  "sorted (map sec_sequence (mod_sections (sortSectionsOf m)))"
  by (simp_all add: sectionNextOf_def comp_def split_beta list_eq_iff_nth_eq nth_enumerate_eq)

lemma item_adjacency_in_sequence_order:
  "map ini_sectionItemId (sectionItemNextOf (sortItemsOf sec))
     = map item_sectionItemId (sort_key item_sequence (sec_sectionItems sec))"
  "sorted (map item_sequence (sec_sectionItems (sortItemsOf sec)))"
  by (simp_all add: sectionItemNextOf_def comp_def split_beta list_eq_iff_nth_eq nth_enumerate_eq)

text \<open>
  C4, at the failing input: \<open>unorderedCourse\<close> lists \<open>M2\<close> (sequence 2) before \<open>M1\<close>
  (sequence 1). \<open>extractAllIds\<close> returns the module IDs in sequence order, and the
  adjacency records built afterwards follow the input order: \<open>M2\<close> points at \<open>M1\<close>, and
  \<open>M1\<close>, the module with the smallest sequence, is last.
\<close>

theorem module_adjacency_follows_input_order:
  "ids_modules (extractAllIds unorderedCourse) = [''M1'', ''M2'']
   \<and> moduleNextData (getNextData (extractAllIds_input unorderedCourse))
     = [\<lparr>mni_moduleId = ''M2'', mni_nextModuleId = Some ''M1'', mni_courseInstanceId = ''c'',
         mni_sectionId = Some ''S21''\<rparr>,
        \<lparr>mni_moduleId = ''M1'', mni_nextModuleId = None, mni_courseInstanceId = ''c'',
         mni_sectionId = Some ''S11''\<rparr>]
   \<and> moduleNext (snd (initializeStudentProgress unorderedCourse emptyStore))
     = [\<lparr>mn_moduleId = ''M2'', mn_sectionId = ''S21'', mn_nextModuleId = Some ''M1'',
         mn_courseInstanceId = ''c''\<rparr>,
        \<lparr>mn_moduleId = ''M1'', mn_sectionId = ''S11'', mn_nextModuleId = None,
         mn_courseInstanceId = ''c''\<rparr>]"
  by (simp add: initializeStudentProgress_def studentRecords_def Let_def unorderedCourse_def
      exampleM1_def exampleM2_def exampleS11_def exampleS12_def exampleS21_def
      emptyStore_def extractAllIds_def extractAllIds_sorted_def extractAllIds_input_def
      sortSectionsOf_def sortItemsOf_def
      getNextData_def moduleNextOf_def sectionNextOf_def sectionItemNextOf_def or_null_def
      at_index_def upsertValue_def insertIfAbsent_def createMany_skipDuplicates_def
      upsertModuleNext_def upsertSectionNext_def upsertSectionItemNext_def)

text \<open>
  C3, at the failing input: initialising \<open>unorderedCourse\<close> on the empty store succeeds.
  The first-chain leaf by sequence is \<open>I111\<close> (\<open>firstSectionItem\<close> of \<open>extractAllIds\<close>), and
  it is left INCOMPLETE with its section \<open>S11\<close> and its module \<open>M1\<close>; the item
  IN_PROGRESS is \<open>I211\<close>, in the module listed first.
\<close>

theorem initial_progress_follows_input_order:
  "firstModule (extractAllIds unorderedCourse) = Some ''M1''
   \<and> firstSection (extractAllIds unorderedCourse) = Some ''S11''
   \<and> firstSectionItem (extractAllIds unorderedCourse) = Some ''I111''
   \<and> fst (initializeStudentProgress unorderedCourse emptyStore)
     = Inr \<lparr>studentCount = 1, totalRecords = 10\<rparr>
   \<and> studentModuleProgress (snd (initializeStudentProgress unorderedCourse emptyStore))
     = [((''u'', ''M2'', ''c''), IN_PROGRESS), ((''u'', ''M1'', ''c''), INCOMPLETE)]
   \<and> studentSectionProgress (snd (initializeStudentProgress unorderedCourse emptyStore))
     = [((''u'', ''S21'', ''c''), IN_PROGRESS), ((''u'', ''S11'', ''c''), INCOMPLETE),
        ((''u'', ''S12'', ''c''), INCOMPLETE)]
   \<and> studentSectionItemProgress (snd (initializeStudentProgress unorderedCourse emptyStore))
     = [((''u'', ''I211'', ''c''), IN_PROGRESS), ((''u'', ''I111'', ''c''), INCOMPLETE),
        ((''u'', ''I112'', ''c''), INCOMPLETE), ((''u'', ''I121'', ''c''), INCOMPLETE)]"
  by (simp add: initializeStudentProgress_def studentRecords_def Let_def unorderedCourse_def
      exampleM1_def exampleM2_def exampleS11_def exampleS12_def exampleS21_def
      emptyStore_def extractAllIds_def extractAllIds_sorted_def extractAllIds_input_def
      sortSectionsOf_def sortItemsOf_def
      getNextData_def moduleNextOf_def sectionNextOf_def sectionItemNextOf_def or_null_def
      at_index_def upsertValue_def insertIfAbsent_def createMany_skipDuplicates_def
      upsertModuleNext_def upsertSectionNext_def upsertSectionItemNext_def)

subsection \<open>extractAllIds and the caller's arrays\<close>

lemma fold_sortItemsInPlace:
  "nextFree (fold sortItemsInPlace secs h) = nextFree h"
  "moduleArrays (fold sortItemsInPlace secs h) = moduleArrays h"
  "sectionArrays (fold sortItemsInPlace secs h) = sectionArrays h"
  "sectionItemArrays (fold sortItemsInPlace secs h) q =
     (if q \<in> so_sectionItems ` set secs then sort_key item_sequence (sectionItemArrays h q)
      else sectionItemArrays h q)"
  by (induction secs arbitrary: h) (auto simp: sortItemsInPlace_def sort_key_twice)

lemma sortSectionsInPlace_effect:
  "nextFree (sortSectionsInPlace mo h) = nextFree h"
  "moduleArrays (sortSectionsInPlace mo h) = moduleArrays h"
  "sectionArrays (sortSectionsInPlace mo h) p =
     (if p = mo_sections mo then sort_key so_sequence (sectionArrays h p) else sectionArrays h p)"
  "sectionItemArrays (sortSectionsInPlace mo h) q =
     (if q \<in> so_sectionItems ` set (sectionArrays h (mo_sections mo))
      then sort_key item_sequence (sectionItemArrays h q) else sectionItemArrays h q)"
  by (simp_all add: sortSectionsInPlace_def Let_def fold_sortItemsInPlace)

lemma fold_sortSectionsInPlace:
  "nextFree (fold sortSectionsInPlace mods h) = nextFree h"
  "moduleArrays (fold sortSectionsInPlace mods h) = moduleArrays h"
  "sectionArrays (fold sortSectionsInPlace mods h) p =
     (if p \<in> mo_sections ` set mods then sort_key so_sequence (sectionArrays h p)
      else sectionArrays h p)"
  "sectionItemArrays (fold sortSectionsInPlace mods h) q =
     (if q \<in> (\<Union>mo\<in>set mods. so_sectionItems ` set (sectionArrays h (mo_sections mo)))
      then sort_key item_sequence (sectionItemArrays h q) else sectionItemArrays h q)"
proof (induction mods arbitrary: h p q)
  case Nil
  { case 1 show ?case by simp }
  { case 2 show ?case by simp }
  { case 3 show ?case by simp }
  { case 4 show ?case by simp }
next
  case (Cons mo mods)
  let ?h1 = "sortSectionsInPlace mo h"
  have sets: "set (sectionArrays ?h1 p') = set (sectionArrays h p')" for p'
    by (simp add: sortSectionsInPlace_effect)
  { case 1 show ?case by (simp add: Cons.IH(1) sortSectionsInPlace_effect) }
  { case 2 show ?case by (simp add: Cons.IH(2) sortSectionsInPlace_effect) }
  { case 3 show ?case
      by (simp add: Cons.IH(3) sortSectionsInPlace_effect sort_key_twice) }
  { case 4 show ?case
      by (auto simp: Cons.IH(4) sets sortSectionsInPlace_effect sort_key_twice) }
qed

lemma extractAllIds_heap_effect:
  assumes "extractAllIds_heap modulesArray h = (sortedModules, h')"
  shows "sortedModules = nextFree h"
    and "moduleArrays h' =
           (moduleArrays h)(nextFree h := sort_key mo_sequence (moduleArrays h modulesArray))"
    and "sectionArrays h' p =
           (if p \<in> mo_sections ` set (moduleArrays h modulesArray)
            then sort_key so_sequence (sectionArrays h p) else sectionArrays h p)"
    and "sectionItemArrays h' q =
           (if q \<in> (\<Union>mo\<in>set (moduleArrays h modulesArray).
                       so_sectionItems ` set (sectionArrays h (mo_sections mo)))
            then sort_key item_sequence (sectionItemArrays h q) else sectionItemArrays h q)"
proof -
  let ?copy = "sort_key mo_sequence (moduleArrays h modulesArray)"
  let ?h2 = "h\<lparr>nextFree := Suc (nextFree h),
               moduleArrays := (moduleArrays h)(nextFree h := ?copy)\<rparr>"
  have result: "h' = fold sortSectionsInPlace ?copy ?h2"
    and address: "sortedModules = nextFree h"
    using assms by (auto simp: extractAllIds_heap_def Let_def)
  show "sortedModules = nextFree h"
    by (rule address)
  show "moduleArrays h' =
           (moduleArrays h)(nextFree h := sort_key mo_sequence (moduleArrays h modulesArray))"
    by (simp add: result fold_sortSectionsInPlace)
  show "sectionArrays h' p =
           (if p \<in> mo_sections ` set (moduleArrays h modulesArray)
            then sort_key so_sequence (sectionArrays h p) else sectionArrays h p)"
    by (simp add: result fold_sortSectionsInPlace)
  show "sectionItemArrays h' q =
           (if q \<in> (\<Union>mo\<in>set (moduleArrays h modulesArray).
                       so_sectionItems ` set (sectionArrays h (mo_sections mo)))
            then sort_key item_sequence (sectionItemArrays h q) else sectionItemArrays h q)"
    by (simp add: result fold_sortSectionsInPlace)
qed

lemma readSection_sorted:
  "sortItemsOf (readSection h sec)
     = \<lparr>sec_sectionId = so_sectionId sec, sec_sequence = so_sequence sec,
        sec_sectionItems = sort_key item_sequence (sectionItemArrays h (so_sectionItems sec))\<rparr>"
  by (simp add: sortItemsOf_def readSection_def)

lemma readModule_sorted:
  "sortSectionsOf (readModule h mo)
     = \<lparr>mod_moduleId = mo_moduleId mo, mod_sequence = mo_sequence mo,
        mod_sections = map (\<lambda>sec. sortItemsOf (readSection h sec))
                         (sort_key so_sequence (sectionArrays h (mo_sections mo)))\<rparr>"
proof -
  have "(\<lambda>sec. sec_sequence (readSection h sec)) = so_sequence"
    by (simp add: readSection_def fun_eq_iff)
  then show ?thesis
    by (simp add: sortSectionsOf_def readModule_def sort_key_map comp_def)
qed

lemma readModule_after:
  assumes "extractAllIds_heap modulesArray h = (sortedModules, h')"
    and "mo \<in> set (moduleArrays h modulesArray)"
  shows "readModule h' mo = sortSectionsOf (readModule h mo)"
proof -
  note effect = extractAllIds_heap_effect [OF assms(1)]
  have sections: "sectionArrays h' (mo_sections mo)
                    = sort_key so_sequence (sectionArrays h (mo_sections mo))"
    using assms(2) by (simp add: effect(3))
  have "readSection h' sec = sortItemsOf (readSection h sec)"
    if "sec \<in> set (sectionArrays h (mo_sections mo))" for sec
  proof -
    have "sectionItemArrays h' (so_sectionItems sec)
            = sort_key item_sequence (sectionItemArrays h (so_sectionItems sec))"
      using assms(2) that by (auto simp: effect(4))
    then show ?thesis
      by (simp add: readSection_sorted) (simp add: readSection_def)
  qed
  then have "map (readSection h') (sort_key so_sequence (sectionArrays h (mo_sections mo)))
               = map (\<lambda>sec. sortItemsOf (readSection h sec))
                   (sort_key so_sequence (sectionArrays h (mo_sections mo)))"
    by simp
  then show ?thesis
    by (simp add: readModule_sorted) (simp add: readModule_def sections)
qed

text \<open>
  C10: let \<open>extractAllIds\<close> run on an allocated \<open>modules\<close> array. The caller's array holds
  the same module objects in the same order afterwards, and the new array
  \<open>sortedModules\<close> holds them sorted by sequence. The \<open>sections\<close> array of each of these
  modules, and the \<open>sectionItems\<close> array of each of their sections, now holds its former
  elements sorted by sequence. So the curriculum read through the caller's array is
  \<open>extractAllIds_input\<close> of the curriculum read before the call (modules in input order,
  sections and items in sequence order), and the one read through \<open>sortedModules\<close> is
  \<open>extractAllIds_sorted\<close> of it.
\<close>

theorem extractAllIds_sorts_callers_arrays:
  assumes "modulesArray < nextFree h"
    and "extractAllIds_heap modulesArray h = (sortedModules, h')"
    and "modules cd = readModules h modulesArray"
  shows "moduleArrays h' modulesArray = moduleArrays h modulesArray
       \<and> moduleArrays h' sortedModules = sort_key mo_sequence (moduleArrays h modulesArray)
       \<and> (\<forall>mo\<in>set (moduleArrays h modulesArray).
             sectionArrays h' (mo_sections mo)
               = sort_key so_sequence (sectionArrays h (mo_sections mo))
           \<and> (\<forall>sec\<in>set (sectionArrays h (mo_sections mo)).
                 sectionItemArrays h' (so_sectionItems sec)
                   = sort_key item_sequence (sectionItemArrays h (so_sectionItems sec))))
       \<and> readModules h' modulesArray = modules (extractAllIds_input cd)
       \<and> readModules h' sortedModules = extractAllIds_sorted cd
       \<and> map mod_moduleId (readModules h' modulesArray) = map mod_moduleId (modules cd)
       \<and> (\<forall>m\<in>set (readModules h' modulesArray).
             sorted (map sec_sequence (mod_sections m))
           \<and> (\<forall>sec\<in>set (mod_sections m). sorted (map item_sequence (sec_sectionItems sec))))"
proof -
  note effect = extractAllIds_heap_effect [OF assms(2)]
  have other: "modulesArray \<noteq> nextFree h"
    using assms(1) by simp
  have callers: "moduleArrays h' modulesArray = moduleArrays h modulesArray"
    using other by (simp add: effect(2))
  have copy: "moduleArrays h' sortedModules = sort_key mo_sequence (moduleArrays h modulesArray)"
    by (simp add: effect(1,2))
  have arrays: "\<forall>mo\<in>set (moduleArrays h modulesArray).
             sectionArrays h' (mo_sections mo)
               = sort_key so_sequence (sectionArrays h (mo_sections mo))
           \<and> (\<forall>sec\<in>set (sectionArrays h (mo_sections mo)).
                 sectionItemArrays h' (so_sectionItems sec)
                   = sort_key item_sequence (sectionItemArrays h (so_sectionItems sec)))"
    by (auto simp: effect(3,4))
  have seen: "readModules h' modulesArray = modules (extractAllIds_input cd)"
    using readModule_after [OF assms(2)]
    by (simp add: readModules_def callers extractAllIds_input_def assms(3))
  have "(\<lambda>mo. mod_sequence (readModule h mo)) = mo_sequence"
    by (simp add: readModule_def fun_eq_iff)
  then have "sort_key mod_sequence (map (readModule h) (moduleArrays h modulesArray))
          = map (readModule h) (sort_key mo_sequence (moduleArrays h modulesArray))"
    by (simp add: sort_key_map)
  then have sorted_seen: "readModules h' sortedModules = extractAllIds_sorted cd"
    using readModule_after [OF assms(2)]
    by (simp add: readModules_def copy extractAllIds_sorted_def assms(3))
  have order: "map mod_moduleId (readModules h' modulesArray) = map mod_moduleId (modules cd)"
    by (simp add: seen extractAllIds_input_def sortSectionsOf_def comp_def)
  have in_order: "\<forall>m\<in>set (readModules h' modulesArray).
             sorted (map sec_sequence (mod_sections m))
           \<and> (\<forall>sec\<in>set (mod_sections m). sorted (map item_sequence (sec_sectionItems sec)))"
    by (auto simp: seen extractAllIds_input_def sortSectionsOf_def sortItemsOf_def comp_def)
  show ?thesis
    using callers copy arrays seen sorted_seen order in_order by blast
qed

theorem extractAllIds_sorts_callers_arrays_witness:
  "(0 :: address) < nextFree unorderedHeap
   \<and> modules unorderedCourse = readModules unorderedHeap 0
   \<and> fst (extractAllIds_heap 0 unorderedHeap) = 6
   \<and> map mo_moduleId (moduleArrays (snd (extractAllIds_heap 0 unorderedHeap)) 0) = [''M2'', ''M1'']
   \<and> map mo_moduleId (moduleArrays (snd (extractAllIds_heap 0 unorderedHeap)) 6) = [''M1'', ''M2'']
   \<and> map so_sectionId (sectionArrays (snd (extractAllIds_heap 0 unorderedHeap)) 1)
     = [''S11'', ''S12'']
   \<and> map item_sectionItemId (sectionItemArrays (snd (extractAllIds_heap 0 unorderedHeap)) 4)
     = [''I111'', ''I112'']
   \<and> readModules (snd (extractAllIds_heap 0 unorderedHeap)) 0
     = modules (extractAllIds_input unorderedCourse)
   \<and> readModules (snd (extractAllIds_heap 0 unorderedHeap)) 6
     = extractAllIds_sorted unorderedCourse"
proof -
  have allocated: "(0 :: address) < nextFree unorderedHeap"
    by (simp add: unorderedHeap_def)
  have call: "extractAllIds_heap 0 unorderedHeap
                = (fst (extractAllIds_heap 0 unorderedHeap), snd (extractAllIds_heap 0 unorderedHeap))"
    by simp
  have reads: "modules unorderedCourse = readModules unorderedHeap 0"
    by (simp add: unorderedCourse_def exampleM1_def exampleM2_def exampleS11_def exampleS12_def
        exampleS21_def readModules_def readModule_def readSection_def unorderedHeap_def)
  have address: "fst (extractAllIds_heap 0 unorderedHeap) = 6"
    by (simp add: extractAllIds_heap_def Let_def unorderedHeap_def)
  show ?thesis
    using extractAllIds_sorts_callers_arrays [OF allocated call reads] allocated reads address
    by (simp add: unorderedHeap_def)
qed

end
